theory Spec2Isabelle
  imports Complex_Main
begin

section \<open>JavaScript values\<close>

text \<open>
  A JavaScript string is a sequence of UTF-16 code units. The calculator stores the
  glyphs U+00D7, U+00F7 and U+2212 in its expression buffer, and \<open>slice\<close>,
  \<open>startsWith\<close> and the regular expressions of the module all work on code units, so
  a string is modelled as the list of its code units. \<open>ascii\<close> embeds an ASCII literal.
\<close>

type_synonym jschar = nat
type_synonym jsstring = "jschar list"

definition ascii :: "string \<Rightarrow> jsstring" where
  "ascii s = map of_char s"

text \<open>
  A JavaScript number is an IEEE 754 binary64 value: NaN, an infinity, or a finite
  rational. The sign of zero is not modelled (no operation of the module observes it).
\<close>

datatype jsnum = NaN | PosInf | NegInf | Fin rat

text \<open>\<open>Number.isFinite\<close> and \<open>Number.isInteger\<close>.\<close>

fun Number_isFinite :: "jsnum \<Rightarrow> bool" where
  "Number_isFinite (Fin x) = True"
| "Number_isFinite _ = False"

fun Number_isInteger :: "jsnum \<Rightarrow> bool" where
  "Number_isInteger (Fin x) = (of_int \<lfloor>x\<rfloor> = x)"
| "Number_isInteger _ = False"

text \<open>The comparisons \<open><\<close>, \<open>>\<close> and \<open><=\<close> of numbers: every comparison with NaN is false.\<close>

fun js_lt :: "jsnum \<Rightarrow> jsnum \<Rightarrow> bool" where
  "js_lt NaN _ = False"
| "js_lt _ NaN = False"
| "js_lt (Fin x) (Fin y) = (x < y)"
| "js_lt NegInf NegInf = False"
| "js_lt NegInf _ = True"
| "js_lt _ NegInf = False"
| "js_lt PosInf _ = False"
| "js_lt _ PosInf = True"

definition js_gt :: "jsnum \<Rightarrow> jsnum \<Rightarrow> bool" where
  "js_gt a b = js_lt b a"

definition js_le :: "jsnum \<Rightarrow> jsnum \<Rightarrow> bool" where
  "js_le a b = (a \<noteq> NaN \<and> b \<noteq> NaN \<and> \<not> js_lt b a)"

text \<open>
  A JavaScript value, as the engine may return one and as \<open>this.lastResult\<close> may hold
  one: a number, a boolean, \<open>null\<close>, \<open>undefined\<close>, a string, a BigInt, or an object
  (an array, a function, a symbol or any other object), given by a reference.
\<close>

datatype jsval =
    JNumber jsnum
  | JBoolean bool
  | JNull
  | JUndefined
  | JString jsstring
  | JBigInt int
  | JObject nat

text \<open>
  The values that count as false in \<open>!v\<close> and \<open>v || 0\<close>: 0, NaN, \<open>false\<close>, \<open>null\<close>,
  \<open>undefined\<close>, the empty string and \<open>0n\<close>.
\<close>

definition falsy :: "jsval \<Rightarrow> bool" where
  "falsy v =
     (case v of
        JNumber n \<Rightarrow> n = Fin 0 \<or> n = NaN
      | JBoolean b \<Rightarrow> \<not> b
      | JNull \<Rightarrow> True
      | JUndefined \<Rightarrow> True
      | JString s \<Rightarrow> s = []
      | JBigInt n \<Rightarrow> n = 0
      | JObject r \<Rightarrow> False)"

text \<open>The decimal digits of a natural number.\<close>

fun decimal :: "nat \<Rightarrow> jsstring" where
  "decimal n =
     (if n < 10 then [of_char CHR ''0'' + n]
      else decimal (n div 10) @ [of_char CHR ''0'' + n mod 10])"

declare decimal.simps [simp del]

subsection \<open>Products of the factorial loop in binary64\<close>

text \<open>
  The loop of \<open>factorial\<close> multiplies a running product, which starts at 1, by the
  counter \<open>i\<close>. Both are non-negative integers, so the exact product is a non-negative
  integer \<open>m\<close>, and the double the multiplication returns is \<open>m\<close> rounded to 53
  significant bits, ties to even, or \<open>Infinity\<close> when the rounded value reaches
  \<open>2 ^ 1024\<close>.
\<close>

fun bit_length :: "nat \<Rightarrow> nat" where
  "bit_length n = (if n = 0 then 0 else Suc (bit_length (n div 2)))"

declare bit_length.simps [simp del]

definition double_of_nat :: "nat \<Rightarrow> jsnum" where
  "double_of_nat m =
     (let e = bit_length m in
      if e \<le> 53 then Fin (of_nat m)
      else
        let s = e - 53;
            q = m div 2 ^ s;
            r = m mod 2 ^ s;
            q' = (if 2 * r > 2 ^ s \<or> (2 * r = 2 ^ s \<and> odd q) then q + 1 else q)
        in if q' * 2 ^ s \<ge> 2 ^ 1024 then PosInf else Fin (of_nat (q' * 2 ^ s)))"

text \<open>
  \<open>result * i\<close> for a counter \<open>i \<ge> 2\<close>. A finite \<open>result\<close> is a non-negative integer
  here (lemma \<open>iterative_product_bounded\<close> below: every product of the loop is a
  natural number), NaN and the infinities propagate.
\<close>

fun times_counter :: "jsnum \<Rightarrow> nat \<Rightarrow> jsnum" where
  "times_counter (Fin x) i = double_of_nat (nat \<lfloor>x\<rfloor> * i)"
| "times_counter v i = v"

section \<open>Errors\<close>

text \<open>
  Every failure of the module is \<open>throw new Error(message)\<close>; an error is modelled by
  its message. \<open>EngineError\<close> is an exception thrown by the JavaScript engine itself
  while it compiles or runs the rewritten expression, or by a built-in conversion.
  \<open>evaluate\<close> catches every error and throws a new one whose message is prefixed with
  \<open>Calculation error:\<close>. Outside \<open>evaluate\<close>, \<open>calculate\<close> can throw the engine's
  \<open>TypeError\<close> for a method call on \<open>null\<close> or \<open>undefined\<close>.
\<close>

datatype error =
    FactorialNotNonNegativeInteger
  | FactorialTooLarge
  | InvalidArguments jsstring
  | InvalidExpression
  | InvalidCharacters
  | ResultNotANumber
  | ResultInfinite
  | EngineError jsstring

datatype calc_error = CalculationError error | TypeError

section \<open>Calculator.factorial\<close>

function factorial_loop :: "nat \<Rightarrow> nat \<Rightarrow> jsnum \<Rightarrow> jsnum" where
  "factorial_loop i num result =
     (if i \<le> num then factorial_loop (i + 1) num (times_counter result i) else result)"
  by pat_completeness auto
termination
  by (relation "measure (\<lambda>(i, num, result). Suc num - i)") auto

declare factorial_loop.simps [simp del]

definition factorial :: "jsnum \<Rightarrow> error + jsnum" where
  "factorial num =
     (if \<not> Number_isFinite num \<or> \<not> Number_isInteger num \<or> js_lt num (Fin 0)
      then Inl FactorialNotNonNegativeInteger
      else if js_gt num (Fin 170) then Inl FactorialTooLarge
      else if js_le num (Fin 1) then Inr (Fin 1)
      else Inr (factorial_loop 2 (case num of Fin x \<Rightarrow> nat \<lfloor>x\<rfloor> | _ \<Rightarrow> 0) (Fin 1)))"

section \<open>Regular expressions of the module\<close>

subsection \<open>Character classes\<close>

text \<open>\<open>[0-9]\<close>, \<open>\w\<close> (that is \<open>[A-Za-z0-9_]\<close>) and \<open>\s\<close> (white space and line terminators).\<close>

definition is_digit :: "jschar \<Rightarrow> bool" where
  "is_digit c = (of_char CHR ''0'' \<le> c \<and> c \<le> of_char CHR ''9'')"

definition is_word_char :: "jschar \<Rightarrow> bool" where
  "is_word_char c =
     (is_digit c \<or> (of_char CHR ''A'' \<le> c \<and> c \<le> of_char CHR ''Z'') \<or> c = of_char CHR ''_''
      \<or> (of_char CHR ''a'' \<le> c \<and> c \<le> of_char CHR ''z''))"

definition is_space :: "jschar \<Rightarrow> bool" where
  "is_space c =
     (c \<in> {9, 10, 11, 12, 13, 32, 160, 5760, 8232, 8233, 8239, 8287, 12288, 65279}
      \<or> (8192 \<le> c \<and> c \<le> 8202))"

text \<open>\<open>[+\-*/]\<close> and \<open>[+*/]\<close>, the two classes of the operator checks.\<close>

definition is_operator_char :: "jschar \<Rightarrow> bool" where
  "is_operator_char c = (c \<in> set (ascii ''+-*/''))"

definition is_second_operator_char :: "jschar \<Rightarrow> bool" where
  "is_second_operator_char c = (c \<in> set (ascii ''+*/''))"

subsection \<open>\<open>replace(/\bWORD\b/g, replacement)\<close>\<close>

text \<open>
  The scan goes from left to right and \<open>prev\<close> tells whether the code unit before the
  current position is a word character (false at the start of the string). \<open>\b\<close> holds
  between two positions exactly when one side is a word character and the other is not.
  After a match the scan continues behind it; elsewhere the current code unit is copied.
\<close>

definition word_match :: "jsstring \<Rightarrow> bool \<Rightarrow> jsstring \<Rightarrow> bool" where
  "word_match w prev s =
     (w \<noteq> [] \<and> take (length w) s = w
      \<and> prev \<noteq> is_word_char (hd w)
      \<and> is_word_char (last w) \<noteq> (case drop (length w) s of [] \<Rightarrow> False | d # _ \<Rightarrow> is_word_char d))"

fun replace_word :: "jsstring \<Rightarrow> jsstring \<Rightarrow> bool \<Rightarrow> jsstring \<Rightarrow> jsstring" where
  "replace_word w r prev [] = []"
| "replace_word w r prev (c # cs) =
     (if word_match w prev (c # cs)
      then r @ replace_word w r (is_word_char (last w)) (drop (length w - 1) cs)
      else c # replace_word w r (is_word_char c) cs)"

subsection \<open>\<open>replace(/c/g, replacement)\<close> for a single code unit\<close>

definition replace_char :: "jschar \<Rightarrow> jsstring \<Rightarrow> jsstring \<Rightarrow> jsstring" where
  "replace_char c r s = concat (map (\<lambda>d. if d = c then r else [d]) s)"

subsection \<open>\<open>replace(/\bNAME\s*\(([^)]+)\)/g, callback)\<close>\<close>

text \<open>
  \<open>call_match name s\<close> matches \<open>NAME\s*\(([^)]+)\)\<close> at the start of \<open>s\<close> and returns
  the captured arguments and the rest of the string behind the match. The white space
  and the arguments are taken greedily; giving characters back never helps, because
  the next character wanted is \<open>(\<close>, respectively \<open>)\<close>, which the greedy part excludes.
\<close>

definition call_match :: "jsstring \<Rightarrow> jsstring \<Rightarrow> (jsstring \<times> jsstring) option" where
  "call_match name s =
     (if take (length name) s \<noteq> name then None
      else (case dropWhile is_space (drop (length name) s) of
              [] \<Rightarrow> None
            | c # t \<Rightarrow>
                if c \<noteq> of_char CHR ''('' then None
                else (let args = takeWhile (\<lambda>d. d \<noteq> of_char CHR '')'') t;
                          rest = dropWhile (\<lambda>d. d \<noteq> of_char CHR '')'') t
                      in if args = [] \<or> rest = [] then None else Some (args, tl rest))))"

lemma call_match_shorter:
  assumes "call_match name (c # cs) = Some (args, rest)"
  shows "length rest < length (c # cs)"
proof -
  from assms obtain t where t: "dropWhile is_space (drop (length name) (c # cs)) = of_char CHR ''('' # t"
    and rest: "rest = tl (dropWhile (\<lambda>d. d \<noteq> of_char CHR '')'') t)"
    by (auto simp: call_match_def Let_def split: if_splits list.splits)
  have "length (dropWhile (\<lambda>d. d \<noteq> of_char CHR '')'') t) \<le> length t"
    by (rule length_dropWhile_le)
  then have "length rest \<le> length t"
    unfolding rest by simp
  moreover have "length (of_char CHR ''('' # t) \<le> length (drop (length name) (c # cs))"
    unfolding t [symmetric] by (rule length_dropWhile_le)
  ultimately show ?thesis by simp
qed

function replace_call ::
  "jsstring \<Rightarrow> (jsstring \<Rightarrow> error + jsstring) \<Rightarrow> bool \<Rightarrow> jsstring \<Rightarrow> error + jsstring" where
  "replace_call name f prev [] = Inr []"
| "replace_call name f prev (c # cs) =
     (case (if prev \<noteq> is_word_char c then call_match name (c # cs) else None) of
        Some (args, rest) \<Rightarrow>
          (case f args of
             Inl e \<Rightarrow> Inl e
           | Inr r \<Rightarrow> (case replace_call name f False rest of
                         Inl e \<Rightarrow> Inl e
                       | Inr out \<Rightarrow> Inr (r @ out)))
      | None \<Rightarrow>
          (case replace_call name f (is_word_char c) cs of
             Inl e \<Rightarrow> Inl e
           | Inr out \<Rightarrow> Inr (c # out)))"
  by pat_completeness auto
termination
  by (relation "measure (\<lambda>(name, f, prev, s). length s)")
     (auto split: if_splits dest: call_match_shorter)

subsection \<open>\<open>test\<close> of the patterns of \<open>isValidExpression\<close>\<close>

text \<open>\<open>/([+\-*/]{3,})/\<close>, \<open>/[+\-*/]{1}[+*/]/\<close> and \<open>/\*\*/\<close>, each found anywhere in the string.\<close>

fun has_operator_run :: "jsstring \<Rightarrow> bool" where
  "has_operator_run (a # b # c # s) =
     ((is_operator_char a \<and> is_operator_char b \<and> is_operator_char c) \<or> has_operator_run (b # c # s))"
| "has_operator_run _ = False"

fun has_operator_pair :: "jsstring \<Rightarrow> bool" where
  "has_operator_pair (a # b # s) =
     ((is_operator_char a \<and> is_second_operator_char b) \<or> has_operator_pair (b # s))"
| "has_operator_pair _ = False"

fun has_power_operator :: "jsstring \<Rightarrow> bool" where
  "has_power_operator (a # b # s) =
     ((a = of_char CHR ''*'' \<and> b = of_char CHR ''*'') \<or> has_power_operator (b # s))"
| "has_power_operator _ = False"

section \<open>The host: built-ins of JavaScript the module calls\<close>

text \<open>
  The built-ins the module relies on are parameters of the model: the conversion of a
  number to a string (\<open>Number.prototype.toString\<close>, also used by template literals and
  by \<open>replace\<close> for a replacement that is not a string), \<open>parseFloat\<close>, and the engine
  that compiles and runs
  \<open>new Function('Math', '"use strict"; return ' + expression)(Math)\<close>. The engine
  returns the value the expression evaluates to, which may be any JavaScript value
  (\<open>true\<close> and \<open>null\<close> are expressions over the permitted characters), or the
  exception it throws. Three more parameters say how values convert: a string to a
  number, an object to a number (which may throw) and an object to a string. Every
  theorem below holds for every host.
\<close>

record host =
  num_to_string :: "jsnum \<Rightarrow> jsstring"
  parseFloat :: "jsstring \<Rightarrow> jsnum"
  run_function :: "jsstring \<Rightarrow> error + jsval"
  string_to_number :: "jsstring \<Rightarrow> jsnum"
  object_to_number :: "nat \<Rightarrow> error + jsnum"
  object_to_string :: "nat \<Rightarrow> jsstring"

text \<open>
  \<open>ToNumber\<close>, the conversion behind the global \<open>isFinite\<close> and \<open>isNaN\<close>; it throws a
  \<open>TypeError\<close> for a BigInt and may throw for an object.
\<close>

fun ToNumber :: "host \<Rightarrow> jsval \<Rightarrow> error + jsnum" where
  "ToNumber H (JNumber v) = Inr v"
| "ToNumber H (JBoolean b) = Inr (Fin (if b then 1 else 0))"
| "ToNumber H JNull = Inr (Fin 0)"
| "ToNumber H JUndefined = Inr NaN"
| "ToNumber H (JString s) = Inr (string_to_number H s)"
| "ToNumber H (JBigInt n) = Inl (EngineError (ascii ''Cannot convert a BigInt value to a number''))"
| "ToNumber H (JObject r) = object_to_number H r"

text \<open>
  \<open>ToString\<close>, the conversion of template literals and of \<open>replace\<close>. The objects that
  reach it are last results, which \<open>evaluate\<close> has converted to a number before; their
  conversion to a string is taken to succeed.
\<close>

fun ToString :: "host \<Rightarrow> jsval \<Rightarrow> jsstring" where
  "ToString H (JNumber v) = num_to_string H v"
| "ToString H (JBoolean b) = (if b then ascii ''true'' else ascii ''false'')"
| "ToString H JNull = ascii ''null''"
| "ToString H JUndefined = ascii ''undefined''"
| "ToString H (JString s) = s"
| "ToString H (JBigInt n) = (if n < 0 then ascii ''-'' @ decimal (nat (- n)) else decimal (nat n))"
| "ToString H (JObject r) = object_to_string H r"

text \<open>
  The method call \<open>v.toString()\<close>: a \<open>TypeError\<close> (\<open>None\<close>) on \<open>null\<close> and
  \<open>undefined\<close>, the string of the value otherwise.
\<close>

fun toString_method :: "host \<Rightarrow> jsval \<Rightarrow> jsstring option" where
  "toString_method H JNull = None"
| "toString_method H JUndefined = None"
| "toString_method H v = Some (ToString H v)"

section \<open>The calculator object\<close>

datatype angle_mode = Rad | Deg

record calculator =
  expression :: jsstring
  result :: jsstring
  lastResult :: jsval
  memory :: jsnum
  isNewExpression :: bool
  angleMode :: angle_mode

text \<open>The constructor.\<close>

definition new_calculator :: calculator where
  "new_calculator =
     \<lparr>expression = [], result = [], lastResult = JNull, memory = Fin 0,
      isNewExpression = True, angleMode = Rad\<rparr>"

text \<open>
  \<open>this.constants\<close> as the strings \<open>replace\<close> inserts: \<open>String(Math.PI)\<close>,
  \<open>String(Math.E)\<close> and \<open>String((1 + Math.sqrt(5)) / 2)\<close>.
\<close>

definition constants_pi :: jsstring where
  "constants_pi = ascii ''3.141592653589793''"

definition constants_e :: jsstring where
  "constants_e = ascii ''2.718281828459045''"

definition constants_phi :: jsstring where
  "constants_phi = ascii ''1.618033988749895''"

text \<open>The keys of \<open>this.functions\<close>, in insertion order (the order of \<open>Object.entries\<close>).\<close>

definition function_names :: "jsstring list" where
  "function_names = map ascii
     [''sin'', ''cos'', ''tan'', ''asin'', ''acos'', ''atan'', ''log'', ''log10'', ''log2'',
      ''sqrt'', ''cbrt'', ''pow'', ''exp'', ''abs'', ''ceil'', ''floor'', ''round'',
      ''factorial'', ''reciprocal'', ''square'', ''cube'', ''percent'']"

section \<open>Calculator.evaluate and its stages\<close>

subsection \<open>Constants and operators\<close>

text \<open>
  \<open>this.lastResult || 0\<close>, converted to a string by \<open>replace\<close>: a falsy last result
  gives \<open>0\<close>. The string is inserted as it is: the strings of numbers, of booleans
  and of \<open>null\<close> have no \<open>$\<close> pattern in them for \<open>replace\<close> to expand. (A last
  result stored by \<open>calculate\<close> is never a function, which \<open>replace\<close> would call: a
  function converts to NaN and \<open>evaluate\<close> rejects it.)
\<close>

definition ans_string :: "host \<Rightarrow> jsval \<Rightarrow> jsstring" where
  "ans_string H lr = (if falsy lr then ascii ''0'' else ToString H lr)"

definition substitute_constants :: "host \<Rightarrow> jsval \<Rightarrow> jsstring \<Rightarrow> jsstring" where
  "substitute_constants H lr expr =
     replace_word (ascii ''ans'') (ans_string H lr) False
       (replace_word (ascii ''phi'') constants_phi False
         (replace_word (ascii ''e'') constants_e False
           (replace_word (ascii ''pi'') constants_pi False expr)))"

text \<open>
  The glyphs \<open>^\<close>, U+00D7 (multiplication sign), U+00F7 (division sign) and U+2212
  (minus sign) become \<open>**\<close>, \<open>*\<close>, \<open>/\<close> and \<open>-\<close>.
\<close>

definition normalize_operators :: "jsstring \<Rightarrow> jsstring" where
  "normalize_operators expr =
     replace_char 8722 (ascii ''-'')
       (replace_char 247 (ascii ''/'')
         (replace_char 215 (ascii ''*'')
           (replace_char (of_char CHR ''^'') (ascii ''**'') expr)))"

subsection \<open>Calculator.isValidFunctionArgs, getMathEquivalent, processFunctionCalls\<close>

definition trim :: "jsstring \<Rightarrow> jsstring" where
  "trim s = rev (dropWhile is_space (rev (dropWhile is_space s)))"

definition isValidFunctionArgs :: "jsstring \<Rightarrow> bool" where
  "isValidFunctionArgs args =
     (args \<noteq> [] \<and>
      list_all (\<lambda>c. is_digit c \<or> c \<in> set (ascii ''+-*/().'') \<or> is_space c \<or> c = of_char CHR '','')
        (trim args))"

definition mathMapping :: "(jsstring \<times> jsstring) list" where
  "mathMapping = map (\<lambda>(k, v). (ascii k, ascii v))
     [(''sin'', ''sin''), (''cos'', ''cos''), (''tan'', ''tan''),
      (''asin'', ''asin''), (''acos'', ''acos''), (''atan'', ''atan''),
      (''log'', ''log''), (''log10'', ''log10''), (''log2'', ''log2''),
      (''sqrt'', ''sqrt''), (''cbrt'', ''cbrt''), (''exp'', ''exp''),
      (''abs'', ''abs''), (''ceil'', ''ceil''), (''floor'', ''floor''), (''round'', ''round''),
      (''pow'', ''pow'')]"

definition getMathEquivalent :: "jsstring \<Rightarrow> jsstring" where
  "getMathEquivalent funcName =
     (case map_of mathMapping funcName of Some m \<Rightarrow> m | None \<Rightarrow> funcName)"

text \<open>Sequencing of steps that may throw.\<close>

definition and_then :: "error + 'a \<Rightarrow> ('a \<Rightarrow> error + 'b) \<Rightarrow> error + 'b" where
  "and_then r f = (case r of Inl e \<Rightarrow> Inl e | Inr v \<Rightarrow> f v)"

text \<open>The callbacks of \<open>processFunctionCalls\<close>, one per pattern.\<close>

definition factorial_call :: "host \<Rightarrow> jsstring \<Rightarrow> error + jsstring" where
  "factorial_call H args =
     (if \<not> isValidFunctionArgs args then Inl (InvalidArguments (ascii ''factorial''))
      else and_then (factorial (parseFloat H args)) (\<lambda>v. Inr (num_to_string H v)))"

definition trig_call :: "angle_mode \<Rightarrow> string \<Rightarrow> jsstring \<Rightarrow> error + jsstring" where
  "trig_call mode name args =
     (if mode = Deg
      then Inr (ascii ''Math.'' @ ascii name @ ascii ''(('' @ args @ ascii '') * Math.PI / 180)'')
      else Inr (ascii ''Math.'' @ ascii name @ ascii ''('' @ args @ ascii '')''))"

definition math_call :: "jsstring \<Rightarrow> jsstring \<Rightarrow> error + jsstring" where
  "math_call funcName args =
     (if \<not> isValidFunctionArgs args then Inl (InvalidArguments funcName)
      else Inr (ascii ''Math.'' @ getMathEquivalent funcName @ ascii ''('' @ args @ ascii '')''))"

text \<open>The final loop over \<open>Object.entries(this.functions)\<close>.\<close>

fun other_math_functions :: "jsstring list \<Rightarrow> jsstring \<Rightarrow> error + jsstring" where
  "other_math_functions [] processed = Inr processed"
| "other_math_functions (funcName # names) processed =
     (if funcName \<in> set (map ascii [''factorial'', ''reciprocal'', ''square'', ''cube'',
                                     ''percent'', ''sin'', ''cos'', ''tan''])
      then other_math_functions names processed
      else and_then (replace_call funcName (math_call funcName) False processed)
             (other_math_functions names))"

definition processFunctionCalls :: "host \<Rightarrow> angle_mode \<Rightarrow> jsstring \<Rightarrow> error + jsstring" where
  "processFunctionCalls H mode expr =
     and_then (replace_call (ascii ''factorial'') (factorial_call H) False expr) (\<lambda>p1.
     and_then (replace_call (ascii ''reciprocal'')
                 (\<lambda>args. Inr (ascii ''(1/('' @ args @ ascii ''))'')) False p1) (\<lambda>p2.
     and_then (replace_call (ascii ''square'')
                 (\<lambda>args. Inr (ascii ''Math.pow('' @ args @ ascii '', 2)'')) False p2) (\<lambda>p3.
     and_then (replace_call (ascii ''cube'')
                 (\<lambda>args. Inr (ascii ''Math.pow('' @ args @ ascii '', 3)'')) False p3) (\<lambda>p4.
     and_then (replace_call (ascii ''percent'')
                 (\<lambda>args. Inr (ascii ''(('' @ args @ ascii '')/100)'')) False p4) (\<lambda>p5.
     and_then (replace_call (ascii ''sin'') (trig_call mode ''sin'') False p5) (\<lambda>p6.
     and_then (replace_call (ascii ''cos'') (trig_call mode ''cos'') False p6) (\<lambda>p7.
     and_then (replace_call (ascii ''tan'') (trig_call mode ''tan'') False p7) (\<lambda>p8.
     other_math_functions function_names p8))))))))"

subsection \<open>Calculator.hasBalancedParentheses, isValidExpression, safeEvaluate\<close>

text \<open>
  The loop of \<open>hasBalancedParentheses\<close> with its counter. (\<open>for ... of\<close> walks code
  points; a surrogate pair is never a parenthesis, so walking code units counts the same.)
\<close>

fun balanced_from :: "int \<Rightarrow> jsstring \<Rightarrow> bool" where
  "balanced_from count [] = (count = 0)"
| "balanced_from count (c # cs) =
     (let count1 = (if c = of_char CHR ''('' then count + 1 else count);
          count2 = (if c = of_char CHR '')'' then count1 - 1 else count1)
      in if count2 < 0 then False else balanced_from count2 cs)"

definition hasBalancedParentheses :: "jsstring \<Rightarrow> bool" where
  "hasBalancedParentheses expr = balanced_from 0 expr"

text \<open>
  The character class of \<open>validPattern\<close> and \<open>allowedPattern\<close>:
  \<open>[0-9+\-*/().\s,Math.sincostalogqrtbcexpfloorundefinedPI*]\<close>.
\<close>

definition allowed_char :: "jschar \<Rightarrow> bool" where
  "allowed_char c =
     (is_digit c \<or> c \<in> set (ascii ''+-*/().'') \<or> is_space c
      \<or> c \<in> set (ascii '',Math.sincostalogqrtbcexpfloorundefinedPI*''))"

definition isValidExpression :: "jsstring \<Rightarrow> bool" where
  "isValidExpression expr =
     (if \<not> hasBalancedParentheses expr then False
      else if \<not> list_all allowed_char expr then False
      else if has_operator_run expr then False
      else if has_operator_pair expr \<and> \<not> has_power_operator expr then False
      else True)"

definition safeEvaluate :: "host \<Rightarrow> jsstring \<Rightarrow> error + jsval" where
  "safeEvaluate H expr =
     (if \<not> list_all allowed_char expr then Inl InvalidCharacters else run_function H expr)"

subsection \<open>Calculator.evaluate\<close>

text \<open>
  The global \<open>isFinite\<close> and \<open>isNaN\<close>: both convert their argument to a number first,
  and the conversion may throw.
\<close>

definition isFinite :: "host \<Rightarrow> jsval \<Rightarrow> error + bool" where
  "isFinite H v = and_then (ToNumber H v) (\<lambda>n. Inr (Number_isFinite n))"

definition isNaN :: "host \<Rightarrow> jsval \<Rightarrow> error + bool" where
  "isNaN H v = and_then (ToNumber H v) (\<lambda>n. Inr (n = NaN))"

text \<open>
  The body of the \<open>try\<close> block, then the \<open>catch\<close> that wraps every error. The
  comparisons \<open>result === Infinity\<close> and \<open>result === -Infinity\<close> are strict: they hold
  for these two numbers only. A result that is not a number and converts to a finite
  number (\<open>true\<close>, \<open>null\<close>), or to an infinity, is returned as it is.
\<close>

definition evaluate_body :: "host \<Rightarrow> calculator \<Rightarrow> jsstring \<Rightarrow> error + jsval" where
  "evaluate_body H this expr =
     and_then (processFunctionCalls H (angleMode this)
                 (normalize_operators (substitute_constants H (lastResult this) expr)))
       (\<lambda>processedExpression.
          if \<not> isValidExpression processedExpression then Inl InvalidExpression
          else and_then (safeEvaluate H processedExpression)
            (\<lambda>result.
               and_then (isFinite H result)
                 (\<lambda>finite.
                    if \<not> finite
                    then and_then (isNaN H result)
                           (\<lambda>nan.
                              if nan then Inl ResultNotANumber
                              else if result = JNumber PosInf \<or> result = JNumber NegInf
                              then Inl ResultInfinite
                              else Inr result)
                    else Inr result)))"

definition evaluate :: "host \<Rightarrow> calculator \<Rightarrow> jsstring \<Rightarrow> calc_error + jsval" where
  "evaluate H this expr =
     (case evaluate_body H this expr of
        Inl e \<Rightarrow> Inl (CalculationError e)
      | Inr v \<Rightarrow> Inr v)"

section \<open>The editing methods\<close>

text \<open>\<open>updateDisplay\<close>: \<open>!this.lastResult\<close> holds for the falsy values.\<close>

definition updateDisplay :: "calculator \<Rightarrow> calculator" where
  "updateDisplay this =
     (if falsy (lastResult this)
      then this\<lparr>result := (if expression this = [] then ascii ''0'' else expression this)\<rparr>
      else this)"

definition setExpression :: "jsstring \<Rightarrow> calculator \<Rightarrow> calculator" where
  "setExpression expr this = updateDisplay (this\<lparr>expression := expr, isNewExpression := False\<rparr>)"

text \<open>
  \<open>appendNumber\<close>: \<open>this.expression.match(/[0-9.]+$/)\<close> is the longest run of digits
  and points at the end of the buffer.
\<close>

definition trailing_number :: "jsstring \<Rightarrow> jsstring" where
  "trailing_number s = rev (takeWhile (\<lambda>c. is_digit c \<or> c = of_char CHR ''.'') (rev s))"

definition appendNumber :: "jsstring \<Rightarrow> calculator \<Rightarrow> calculator" where
  "appendNumber number this =
     (if isNewExpression this
      then this\<lparr>expression := number, result := [], isNewExpression := False\<rparr>
      else if number = ascii ''.'' \<and> of_char CHR ''.'' \<in> set (trailing_number (expression this))
      then this
      else if number = ascii ''0'' \<and> expression this = ascii ''0''
      then this
      else this\<lparr>expression := expression this @ number\<rparr>)"

text \<open>
  \<open>calculate\<close> returns the object after the call together with the outcome: the thrown
  error, \<open>null\<close> (\<open>None\<close>) or the pair \<open>{expression, result}\<close>. The assignment
  \<open>this.lastResult = result\<close> comes first; \<open>result.toString()\<close> then throws a
  \<open>TypeError\<close> when the result is \<open>null\<close>, and the \<open>catch\<close> throws it again.
\<close>

definition calculate ::
  "host \<Rightarrow> calculator \<Rightarrow> calculator \<times> (calc_error + (jsstring \<times> jsval) option)" where
  "calculate H this =
     (if expression this = [] then (this, Inr None)
      else (case evaluate H this (expression this) of
              Inl e \<Rightarrow> (this, Inl e)
            | Inr v \<Rightarrow>
                (case toString_method H v of
                   None \<Rightarrow> (this\<lparr>lastResult := v\<rparr>, Inl TypeError)
                 | Some str \<Rightarrow>
                     (this\<lparr>lastResult := v, result := str, isNewExpression := True\<rparr>,
                      Inr (Some (expression this, v))))))"

definition backspace :: "calculator \<Rightarrow> calculator" where
  "backspace this =
     (if length (expression this) > 0
      then updateDisplay (this\<lparr>expression := butlast (expression this)\<rparr>)
      else this)"

definition negate :: "host \<Rightarrow> calculator \<Rightarrow> calculator" where
  "negate H this =
     (if expression this \<noteq> [] then
        (if take 1 (expression this) = ascii ''-''
         then this\<lparr>expression := drop 1 (expression this)\<rparr>
         else this\<lparr>expression := ascii ''-'' @ expression this\<rparr>)
      else if lastResult this \<noteq> JNull
      then this\<lparr>expression := ascii ''-('' @ ToString H (lastResult this) @ ascii '')'',
                isNewExpression := False\<rparr>
      else this)"

section \<open>Notions of the specification\<close>

text \<open>
  Following the spec: the iterative product \<open>2 \<cdot> 3 \<cdot> \<dots> \<cdot> n\<close>, taken from left to right
  in double arithmetic, starting from 1.
\<close>

definition iterative_product :: "nat \<Rightarrow> jsnum" where
  "iterative_product n = foldl times_counter (Fin 1) [2..<Suc n]"

text \<open>
  Following the spec, which asks that substitution work on tokens: a token is a maximal
  run of word characters (an identifier or a number without its point or sign), and
  every other code unit is a token of its own.
\<close>

function tokens :: "jsstring \<Rightarrow> jsstring list" where
  "tokens [] = []"
| "tokens (c # cs) =
     (if is_word_char c
      then (c # takeWhile is_word_char cs) # tokens (dropWhile is_word_char cs)
      else [c] # tokens cs)"
  by pat_completeness auto
termination
  by (relation "measure length") (auto simp: length_dropWhile_le less_Suc_eq_le)

text \<open>
  Following the spec: the value of a token under the constant table, \<open>ans\<close> being the
  last result or 0; every other token stands for itself.
\<close>

definition constant_value :: "host \<Rightarrow> jsval \<Rightarrow> jsstring \<Rightarrow> jsstring" where
  "constant_value H lr t =
     (if t = ascii ''pi'' then constants_pi
      else if t = ascii ''e'' then constants_e
      else if t = ascii ''phi'' then constants_phi
      else if t = ascii ''ans'' then ans_string H lr
      else t)"

subsection \<open>Auxiliary notions of the proofs about tokens\<close>

text \<open>What one substitution does to a token, and the tokens it leaves in its place.\<close>

definition substitute_token :: "jsstring \<Rightarrow> jsstring \<Rightarrow> jsstring \<Rightarrow> jsstring" where
  "substitute_token w r t = (if t = w then r else t)"

definition is_word :: "jsstring \<Rightarrow> bool" where
  "is_word w = (w \<noteq> [] \<and> list_all is_word_char w)"

definition starts_outside_word :: "jsstring \<Rightarrow> bool" where
  "starts_outside_word s = (case s of [] \<Rightarrow> True | c # _ \<Rightarrow> \<not> is_word_char c)"

definition expand_token :: "jsstring \<Rightarrow> jsstring \<Rightarrow> jsstring \<Rightarrow> jsstring list" where
  "expand_token w r t = (if t = w then tokens r else [t])"

section \<open>A sample host\<close>

text \<open>
  The examples below need a concrete host. \<open>sample_host\<close> agrees with JavaScript on
  the inputs the examples use: it prints integers in decimal, parses a decimal literal
  with an optional sign and fraction (exactly, which is what JavaScript does when the
  value is representable), and its engine knows the value of six expressions.
  Elsewhere its answers are placeholders. No theorem about the module depends on it.
\<close>

fun sample_to_string :: "jsnum \<Rightarrow> jsstring" where
  "sample_to_string NaN = ascii ''NaN''"
| "sample_to_string PosInf = ascii ''Infinity''"
| "sample_to_string NegInf = ascii ''-Infinity''"
| "sample_to_string (Fin x) =
     (if x < 0 then ascii ''-'' @ decimal (nat \<lfloor>- x\<rfloor>) else decimal (nat \<lfloor>x\<rfloor>))"

fun digits_value :: "nat \<Rightarrow> jsstring \<Rightarrow> nat" where
  "digits_value acc [] = acc"
| "digits_value acc (c # cs) = digits_value (10 * acc + (c - of_char CHR ''0'')) cs"

definition sample_unsigned :: "jsstring \<Rightarrow> jsnum" where
  "sample_unsigned s =
     (let ip = takeWhile is_digit s;
          rest = dropWhile is_digit s;
          fp = (case rest of
                  c # t \<Rightarrow> if c = of_char CHR ''.'' then takeWhile is_digit t else []
                | [] \<Rightarrow> [])
      in if ip = [] \<and> fp = [] then NaN
         else Fin (of_nat (digits_value 0 ip) + of_nat (digits_value 0 fp) / 10 ^ length fp))"

definition sample_parseFloat :: "jsstring \<Rightarrow> jsnum" where
  "sample_parseFloat s =
     (case dropWhile is_space s of
        [] \<Rightarrow> NaN
      | c # t \<Rightarrow>
          if c = of_char CHR ''-''
          then (case sample_unsigned t of Fin x \<Rightarrow> Fin (- x) | v \<Rightarrow> v)
          else if c = of_char CHR ''+'' then sample_unsigned t
          else sample_unsigned (c # t))"

definition sample_engine :: "jsstring \<Rightarrow> error + jsval" where
  "sample_engine s =
     (if s = ascii ''2+3'' then Inr (JNumber (Fin 5))
      else if s = ascii ''1/0'' then Inr (JNumber PosInf)
      else if s = ascii ''0/0'' then Inr (JNumber NaN)
      else if s = ascii ''120'' then Inr (JNumber (Fin 120))
      else if s = ascii ''true'' then Inr (JBoolean True)
      else if s = ascii ''null'' then Inr JNull
      else Inl (EngineError (ascii ''SyntaxError'')))"

definition sample_host :: host where
  "sample_host =
     \<lparr>num_to_string = sample_to_string, parseFloat = sample_parseFloat,
      run_function = sample_engine,
      string_to_number = (\<lambda>s. if s = [] then Fin 0 else sample_parseFloat s),
      object_to_number = (\<lambda>r. Inr NaN),
      object_to_string = (\<lambda>r. ascii ''[object Object]'')\<rparr>"

section \<open>Rules for evaluating the model on concrete strings\<close>

lemmas char_class_defs =
  ascii_def is_digit_def is_word_char_def is_space_def is_operator_char_def
  is_second_operator_char_def allowed_char_def

lemmas rewrite_defs =
  replace_word.simps substitute_constants_def word_match_def constants_pi_def constants_e_def
  constants_phi_def ans_string_def falsy_def normalize_operators_def replace_char_def
  processFunctionCalls_def and_then_def call_match_def function_names_def math_call_def
  trig_call_def factorial_call_def isValidFunctionArgs_def trim_def getMathEquivalent_def
  mathMapping_def

lemmas validation_defs =
  isValidExpression_def hasBalancedParentheses_def safeEvaluate_def isFinite_def isNaN_def

lemmas sample_host_defs =
  sample_host_def sample_engine_def sample_parseFloat_def sample_unsigned_def

section \<open>Facts about \<open>factorial\<close>\<close>

lemma bit_length_0: "bit_length 0 = 0"
  by (simp add: bit_length.simps)

lemma bit_length_1: "bit_length (Suc 0) = 1"
  by (simp add: bit_length.simps)

lemma bit_length_numeral: "bit_length (numeral k) = Suc (bit_length (numeral k div 2))"
  by (subst bit_length.simps) simp

lemmas bit_length_eval = bit_length_0 bit_length_1 bit_length_numeral

lemma Number_isInteger_iff: "Number_isInteger (Fin x) \<longleftrightarrow> x \<in> \<int>"
  by (auto simp: Ints_def elim: Ints_cases)

lemma bit_length_le: "m < 2 ^ k \<Longrightarrow> bit_length m \<le> k"
proof (induction k arbitrary: m)
  case 0
  then show ?case by (simp add: bit_length.simps)
next
  case (Suc k)
  show ?case
  proof (cases "m = 0")
    case True
    then show ?thesis by (simp add: bit_length.simps)
  next
    case False
    from Suc.prems have "m div 2 < 2 ^ k" by simp
    then have "bit_length (m div 2) \<le> k" by (rule Suc.IH)
    with False show ?thesis by (subst bit_length.simps) simp
  qed
qed

lemma double_of_nat_small: "m < 2 ^ 53 \<Longrightarrow> double_of_nat m = Fin (of_nat m)"
  using bit_length_le [of m 53] by (simp add: double_of_nat_def)

lemma factorial_loop_foldl:
  "factorial_loop i num r = foldl times_counter r [i..<Suc num]"
proof (induction i num r rule: factorial_loop.induct)
  case (1 i num r)
  show ?case
  proof (cases "i \<le> num")
    case True
    then have "[i..<Suc num] = i # [i + 1..<Suc num]"
      by (simp add: upt_conv_Cons)
    with True "1.IH" show ?thesis
      by (subst factorial_loop.simps) simp
  next
    case False
    then show ?thesis
      by (subst factorial_loop.simps) simp
  qed
qed

lemma times_counter_of_nat: "times_counter (Fin (of_nat m)) i = double_of_nat (m * i)"
  by simp

lemma iterative_product_Suc:
  "1 \<le> n \<Longrightarrow> iterative_product (Suc n) = times_counter (iterative_product n) (Suc n)"
  by (simp add: iterative_product_def)

lemma representable_factorial:
  assumes "k \<le> 22"
  shows "double_of_nat (fact k) = Fin (of_nat (fact k))"
proof (cases "k \<le> 18")
  case True
  then have "(fact k :: nat) \<le> fact 18" by (rule fact_mono)
  also have "(fact 18 :: nat) < 2 ^ 53" by (simp add: fact_numeral)
  finally show ?thesis by (rule double_of_nat_small)
next
  case False
  with assms consider "k = 19" | "k = 20" | "k = 21" | "k = 22" by linarith
  then show ?thesis
  proof cases
    case 1
    then show ?thesis by (simp add: fact_numeral double_of_nat_def bit_length_eval)
  next
    case 2
    then show ?thesis by (simp add: fact_numeral double_of_nat_def bit_length_eval)
  next
    case 3
    then show ?thesis by (simp add: fact_numeral double_of_nat_def bit_length_eval)
  next
    case 4
    then show ?thesis by (simp add: fact_numeral double_of_nat_def bit_length_eval)
  qed
qed

lemma iterative_product_exact:
  "n \<le> 22 \<Longrightarrow> iterative_product n = Fin (of_nat (fact n))"
proof (induction n)
  case 0
  then show ?case by (simp add: iterative_product_def)
next
  case (Suc n)
  show ?case
  proof (cases "n = 0")
    case True
    then show ?thesis by (simp add: iterative_product_def)
  next
    case False
    with Suc have ip: "iterative_product n = Fin (of_nat (fact n))" by simp
    have "iterative_product (Suc n) = times_counter (Fin (of_nat (fact n))) (Suc n)"
      using False iterative_product_Suc [of n] ip by (simp del: of_nat_fact)
    also have "\<dots> = double_of_nat (fact n * Suc n)" by (rule times_counter_of_nat)
    also have "fact n * Suc n = (fact (Suc n) :: nat)" by (simp add: mult.commute)
    also have "double_of_nat (fact (Suc n)) = Fin (of_nat (fact (Suc n)))"
      using Suc.prems by (rule representable_factorial)
    finally show ?thesis .
  qed
qed

lemma factorial_not_natural:
  assumes "\<nexists>n::nat. num = Fin (of_nat n)"
  shows "factorial num = Inl FactorialNotNonNegativeInteger"
proof (cases num)
  case (Fin x)
  have "x \<notin> \<int> \<or> x < 0"
  proof (rule ccontr)
    assume "\<not> (x \<notin> \<int> \<or> x < 0)"
    then have "x \<in> \<int>" "0 \<le> x" by auto
    then have "x = of_nat (nat \<lfloor>x\<rfloor>)"
      by (metis Ints_cases floor_of_int of_int_0_le_iff of_nat_nat)
    with Fin assms show False by blast
  qed
  with Fin show ?thesis by (auto simp: factorial_def Number_isInteger_iff simp del: Number_isInteger.simps)
qed (simp_all add: factorial_def)

lemma factorial_of_nat:
  "factorial (Fin (of_nat n)) =
     (if 170 < n then Inl FactorialTooLarge
      else if n \<le> 1 then Inr (Fin 1)
      else Inr (iterative_product n))"
proof -
  have [simp]: "(of_nat n :: rat) \<le> 1 \<longleftrightarrow> n \<le> 1"
    using of_nat_le_iff [of n 1, where 'a = rat] by simp
  have [simp]: "(170 :: rat) < of_nat n \<longleftrightarrow> 170 < n"
    using of_nat_less_iff [of 170 n, where 'a = rat] by simp
  show ?thesis
    by (auto simp: factorial_def js_gt_def js_le_def factorial_loop_foldl iterative_product_def not_less)
qed

lemma factorial_5: "factorial (Fin 5) = Inr (Fin 120)"
  by (simp add: factorial_def js_gt_def js_le_def factorial_loop.simps double_of_nat_def bit_length_eval)

lemma iterative_product_23: "iterative_product 23 = Fin 25852016738884978212864"
proof -
  have "iterative_product 23 = times_counter (Fin (of_nat (fact 22))) 23"
    using iterative_product_Suc [of 22] iterative_product_exact [of 22] by (simp del: of_nat_fact)
  also have "\<dots> = double_of_nat (fact 22 * 23)" by (rule times_counter_of_nat)
  finally have "iterative_product 23 = double_of_nat (fact 22 * 23)" .
  then show ?thesis by (simp add: fact_numeral double_of_nat_def bit_length_eval)
qed

lemma bit_length_upper: "m < 2 ^ bit_length m"
proof (induction m rule: bit_length.induct)
  case (1 n)
  show ?case
  proof (cases "n = 0")
    case True
    then show ?thesis by (simp add: bit_length.simps)
  next
    case False
    with 1 have "n div 2 < 2 ^ bit_length (n div 2)" by simp
    then have "n < 2 * 2 ^ bit_length (n div 2)" by linarith
    with False show ?thesis by (subst bit_length.simps) simp
  qed
qed

lemma bit_length_lower: "0 < m \<Longrightarrow> 2 ^ (bit_length m - 1) \<le> m"
proof (induction m rule: bit_length.induct)
  case (1 n)
  then have n: "n \<noteq> 0" by simp
  show ?case
  proof (cases "n div 2 = 0")
    case True
    then have "bit_length n = 1"
      using n by (subst bit_length.simps) (simp add: bit_length.simps)
    with 1 show ?thesis by simp
  next
    case False
    with 1 n have "2 ^ (bit_length (n div 2) - 1) \<le> n div 2" by simp
    moreover from False have "bit_length (n div 2) \<noteq> 0"
      by (subst bit_length.simps) simp
    then have "(2::nat) ^ bit_length (n div 2) = 2 * 2 ^ (bit_length (n div 2) - 1)"
      by (cases "bit_length (n div 2)") simp_all
    ultimately have "(2::nat) ^ bit_length (n div 2) \<le> n" by linarith
    moreover have "bit_length n = Suc (bit_length (n div 2))"
      using n by (subst bit_length.simps) simp
    ultimately show ?thesis by simp
  qed
qed

text \<open>The value \<open>double_of_nat\<close> rounds to exceeds the exact one by at most one part in \<open>2 ^ 53\<close>.\<close>

lemma double_of_nat_bound:
  "\<exists>v. v * 2 ^ 53 \<le> m * (2 ^ 53 + 1)
     \<and> double_of_nat m = (if 2 ^ 1024 \<le> v then PosInf else Fin (of_nat v))"
proof (cases "bit_length m \<le> 53")
  case True
  have "m < 2 ^ bit_length m" by (rule bit_length_upper)
  also have "(2::nat) ^ bit_length m \<le> 2 ^ 53"
    using True by (rule power_increasing) simp
  also have "(2::nat) ^ 53 \<le> 2 ^ 1024" by simp
  finally have "\<not> 2 ^ 1024 \<le> m" by simp
  moreover have "m * 2 ^ 53 \<le> m * (2 ^ 53 + 1)" by simp
  ultimately show ?thesis
    using True by (intro exI [of _ m]) (simp add: double_of_nat_def)
next
  case False
  define s where "s = bit_length m - 53"
  define q where "q = m div 2 ^ s"
  define r where "r = m mod 2 ^ s"
  define q' where "q' = (if 2 * r > 2 ^ s \<or> (2 * r = 2 ^ s \<and> odd q) then q + 1 else q)"
  have m: "m = q * 2 ^ s + r"
    unfolding q_def r_def by (rule div_mult_mod_eq [symmetric])
  from False have "0 < m" by (cases "m = 0") (simp_all add: bit_length.simps)
  then have "2 ^ (bit_length m - 1) \<le> m" by (rule bit_length_lower)
  moreover from False have "bit_length m - 1 = s + 52" by (simp add: s_def)
  ultimately have low: "2 ^ s * 2 ^ 52 \<le> m" by (simp add: power_add)
  have "2 * (q' * 2 ^ s) \<le> 2 * m + 2 ^ s"
  proof (cases "2 * r > 2 ^ s \<or> (2 * r = 2 ^ s \<and> odd q)")
    case True
    then have "q' = q + 1" "2 ^ s \<le> 2 * r" by (auto simp: q'_def)
    then show ?thesis by (simp add: m algebra_simps)
  next
    case False
    then have "q' = q" by (simp add: q'_def)
    then show ?thesis by (simp add: m)
  qed
  then have "2 * (q' * 2 ^ s) * 2 ^ 52 \<le> (2 * m + 2 ^ s) * 2 ^ 52"
    by (rule mult_le_mono1)
  also have "\<dots> = m * 2 ^ 53 + 2 ^ s * 2 ^ 52" by (simp add: algebra_simps)
  also have "\<dots> \<le> m * 2 ^ 53 + m" using low by simp
  finally have "q' * 2 ^ s * 2 ^ 53 \<le> m * (2 ^ 53 + 1)" by (simp add: algebra_simps)
  moreover have "double_of_nat m = (if 2 ^ 1024 \<le> q' * 2 ^ s then PosInf else Fin (of_nat (q' * 2 ^ s)))"
    using False by (simp add: double_of_nat_def Let_def s_def q_def r_def q'_def)
  ultimately show ?thesis by blast
qed

text \<open>
  The running product never overflows up to 170: each multiplication adds a relative
  error of at most \<open>2 ^ - 53\<close>, and \<open>2 \<cdot> 170!\<close> is below \<open>2 ^ 1024\<close>.
\<close>

lemma growth_bound:
  fixes c :: nat
  shows "fact k * (c + 1) ^ k * c ^ d \<le> fact (k + d) * (c + 1) ^ (k + d)"
proof (induction d)
  case 0
  then show ?case by simp
next
  case (Suc d)
  have "fact k * (c + 1) ^ k * c ^ Suc d = (fact k * (c + 1) ^ k * c ^ d) * c"
    by simp
  also have "\<dots> \<le> (fact (k + d) * (c + 1) ^ (k + d)) * c"
    using Suc.IH by (rule mult_le_mono1)
  also have "\<dots> \<le> (fact (k + d) * (c + 1) ^ (k + d)) * (Suc (k + d) * (c + 1))"
    by (rule mult_le_mono2) (simp add: add_mult_distrib2)
  also have "\<dots> = fact (k + Suc d) * (c + 1) ^ (k + Suc d)"
    by (simp add: algebra_simps)
  finally show ?case .
qed

lemma power_succ_bound:
  fixes b c :: nat
  assumes b: "b = c + 1"
  shows "n \<le> c \<Longrightarrow> b ^ n * (c - n) \<le> c ^ (n + 1)"
proof (induction n)
  case 0
  then show ?case by simp
next
  case (Suc n)
  define a where "a = c - Suc n"
  with Suc.prems have cn: "c - n = a + 1" and ac: "a \<le> c" by simp_all
  have "b * a \<le> c * (a + 1)" using ac by (simp add: b)
  then have "b ^ n * (b * a) \<le> b ^ n * (c * (a + 1))"
    by (rule mult_le_mono2)
  also have "\<dots> = c * (b ^ n * (c - n))" by (simp add: cn algebra_simps)
  also have "\<dots> \<le> c * c ^ (n + 1)"
    using Suc by (intro mult_le_mono2) simp
  finally have fin: "b ^ n * (b * a) \<le> c ^ (Suc n + 1)" by simp
  have eq: "b ^ Suc n * (c - Suc n) = b ^ n * (b * a)"
    by (simp add: a_def mult_ac)
  show ?case unfolding eq by (rule fin)
qed

lemma power_succ_twice:
  fixes c :: nat
  assumes "2 * n \<le> c" "0 < c"
  shows "(c + 1) ^ n \<le> 2 * c ^ n"
proof -
  from assms have le: "c \<le> 2 * (c - n)" and n: "n \<le> c" by simp_all
  have "(c + 1) ^ n * c \<le> (c + 1) ^ n * (2 * (c - n))"
    using le by (rule mult_le_mono2)
  also have "\<dots> = 2 * ((c + 1) ^ n * (c - n))" by simp
  also have "\<dots> \<le> 2 * c ^ (n + 1)"
    using power_succ_bound [OF refl n] by simp
  finally have "(c + 1) ^ n * c \<le> (2 * c ^ n) * c" by simp
  with assms(2) show ?thesis by simp
qed

lemma factorial_170_bound: "(fact 170 :: nat) < 2 ^ 1023"
  by (simp add: fact_numeral)

lemma below_overflow:
  fixes c :: nat
  assumes c: "c = 2 ^ 53" and k: "k \<le> 170" and v: "v * c ^ k \<le> fact k * (c + 1) ^ k"
  shows "v < 2 ^ 1024"
proof -
  define d where "d = 170 - k"
  with k have kd: "k + d = 170" by simp
  have c0: "0 < c" and c340: "2 * 170 \<le> c" by (simp_all add: c)
  have "v * c ^ 170 = v * c ^ k * c ^ d"
    by (simp add: kd [symmetric] power_add)
  also have "\<dots> \<le> fact k * (c + 1) ^ k * c ^ d"
    using v by (rule mult_le_mono1)
  also have "\<dots> \<le> fact 170 * (c + 1) ^ 170"
    using growth_bound [of k c d] by (simp add: kd)
  also have "\<dots> \<le> fact 170 * (2 * c ^ 170)"
    using power_succ_twice [OF c340 c0] by (rule mult_le_mono2)
  also have "\<dots> = (2 * fact 170) * c ^ 170" by simp
  also have "\<dots> < 2 ^ 1024 * c ^ 170"
  proof (rule mult_less_mono1)
    from factorial_170_bound have "2 * (fact 170 :: nat) < 2 * 2 ^ 1023" by linarith
    then show "2 * (fact 170 :: nat) < 2 ^ 1024" by simp
    from c0 show "0 < c ^ 170" by simp
  qed
  finally show ?thesis by simp
qed

lemma iterative_product_bounded:
  fixes c :: nat
  assumes c: "c = 2 ^ 53" and "1 \<le> n" "n \<le> 170"
  shows "\<exists>r. iterative_product n = Fin (of_nat r) \<and> r * c ^ n \<le> fact n * (c + 1) ^ n"
  using assms(2,3)
proof (induction n)
  case 0
  then show ?case by simp
next
  case (Suc n)
  show ?case
  proof (cases "n = 0")
    case True
    have "iterative_product (Suc 0) = Fin (of_nat 1)" by (simp add: iterative_product_def)
    moreover have "1 * c ^ Suc 0 \<le> fact (Suc 0) * (c + 1) ^ Suc 0" by simp
    ultimately show ?thesis unfolding True by blast
  next
    case False
    with Suc obtain r where r: "iterative_product n = Fin (of_nat r)"
      and rb: "r * c ^ n \<le> fact n * (c + 1) ^ n" by auto
    obtain v where vb: "v * c \<le> r * Suc n * (c + 1)"
      and dv: "double_of_nat (r * Suc n) = (if 2 ^ 1024 \<le> v then PosInf else Fin (of_nat v))"
      using double_of_nat_bound [of "r * Suc n"] unfolding c by blast
    have "v * c ^ Suc n = v * c * c ^ n" by simp
    also have "\<dots> \<le> r * Suc n * (c + 1) * c ^ n"
      using vb by (rule mult_le_mono1)
    also have "\<dots> = (r * c ^ n) * (Suc n * (c + 1))" by (simp add: algebra_simps)
    also have "\<dots> \<le> (fact n * (c + 1) ^ n) * (Suc n * (c + 1))"
      using rb by (rule mult_le_mono1)
    also have "\<dots> = fact (Suc n) * (c + 1) ^ Suc n" by (simp add: algebra_simps)
    finally have bound: "v * c ^ Suc n \<le> fact (Suc n) * (c + 1) ^ Suc n" .
    with Suc.prems have "v < 2 ^ 1024" by (intro below_overflow [OF c, of "Suc n"]) simp_all
    with dv have "double_of_nat (r * Suc n) = Fin (of_nat v)" by simp
    moreover have "iterative_product (Suc n) = times_counter (Fin (of_nat r)) (Suc n)"
      using False iterative_product_Suc [of n] r by simp
    then have "iterative_product (Suc n) = double_of_nat (r * Suc n)"
      by (simp only: times_counter_of_nat)
    ultimately have "iterative_product (Suc n) = Fin (of_nat v)" by simp
    with bound show ?thesis by blast
  qed
qed

lemma iterative_product_finite:
  assumes "n \<le> 170"
  shows "\<exists>r::nat. iterative_product n = Fin (of_nat r)"
proof (cases "n = 0")
  case True
  have "iterative_product 0 = Fin (of_nat 1)" by (simp add: iterative_product_def)
  with True show ?thesis by blast
next
  case False
  with assms iterative_product_bounded [of "2 ^ 53" n] show ?thesis by auto
qed

text \<open>
  Claim C1. \<open>factorial\<close> fails unless its argument is a natural number up to 170: with
  \<open>Factorial is only defined for non-negative integers\<close> when the argument is NaN,
  infinite, not an integer or negative, and with \<open>Factorial too large (max 170)\<close> when
  it is an integer above 170 (both are the spec's FactorialDomainError). It returns 1
  for 0 and 1, and for \<open>2 \<le> n \<le> 170\<close> the iterative product \<open>2 \<cdot> 3 \<cdot> \<dots> \<cdot> n\<close> of double
  arithmetic, which is a finite number, and which is exactly \<open>n!\<close> up to \<open>n = 22\<close>.
  \<open>factorial(5)\<close> is 120; \<open>factorial(-1)\<close>, \<open>factorial(2.5)\<close> and \<open>factorial(171)\<close> fail.
\<close>

theorem factorial_contract:
  "((\<nexists>k::nat. num = Fin (of_nat k)) \<longrightarrow> factorial num = Inl FactorialNotNonNegativeInteger)
   \<and> (170 < n \<longrightarrow> factorial (Fin (of_nat n)) = Inl FactorialTooLarge)
   \<and> (n \<le> 1 \<longrightarrow> factorial (Fin (of_nat n)) = Inr (Fin 1))
   \<and> (2 \<le> n \<and> n \<le> 170
        \<longrightarrow> factorial (Fin (of_nat n)) = Inr (iterative_product n)
            \<and> (\<exists>r::nat. iterative_product n = Fin (of_nat r)))
   \<and> (n \<le> 22 \<longrightarrow> iterative_product n = Fin (of_nat (fact n)))
   \<and> factorial (Fin 5) = Inr (Fin 120)
   \<and> factorial (Fin (- 1)) = Inl FactorialNotNonNegativeInteger
   \<and> factorial (Fin (5 / 2)) = Inl FactorialNotNonNegativeInteger
   \<and> factorial (Fin 171) = Inl FactorialTooLarge"
proof (intro conjI impI)
  assume "\<nexists>k::nat. num = Fin (of_nat k)"
  then show "factorial num = Inl FactorialNotNonNegativeInteger"
    by (rule factorial_not_natural)
next
  assume "170 < n"
  then show "factorial (Fin (of_nat n)) = Inl FactorialTooLarge"
    by (simp add: factorial_of_nat)
next
  assume "n \<le> 1"
  then show "factorial (Fin (of_nat n)) = Inr (Fin 1)"
    by (simp add: factorial_of_nat)
next
  assume "2 \<le> n \<and> n \<le> 170"
  then show "factorial (Fin (of_nat n)) = Inr (iterative_product n)"
    by (simp add: factorial_of_nat)
next
  assume "2 \<le> n \<and> n \<le> 170"
  then show "\<exists>r::nat. iterative_product n = Fin (of_nat r)"
    using iterative_product_finite by blast
next
  assume "n \<le> 22"
  then show "iterative_product n = Fin (of_nat (fact n))"
    by (rule iterative_product_exact)
next
  show "factorial (Fin 5) = Inr (Fin 120)"
    by (rule factorial_5)
next
  show "factorial (Fin (- 1)) = Inl FactorialNotNonNegativeInteger"
    by (simp add: factorial_def)
next
  show "factorial (Fin (5 / 2)) = Inl FactorialNotNonNegativeInteger"
    by (simp add: factorial_def Number_isInteger_iff del: Number_isInteger.simps)
next
  show "factorial (Fin 171) = Inl FactorialTooLarge"
    by (simp add: factorial_def js_gt_def)
qed

theorem factorial_contract_witness:
  "(\<nexists>k::nat. Fin (5 / 2) = Fin (of_nat k))
   \<and> factorial (Fin (5 / 2)) = Inl FactorialNotNonNegativeInteger
   \<and> factorial (Fin (of_nat 171)) = Inl FactorialTooLarge
   \<and> factorial (Fin (of_nat 1)) = Inr (Fin 1)
   \<and> factorial (Fin (of_nat 5)) = Inr (iterative_product 5)
   \<and> iterative_product 5 = Fin (of_nat (fact 5))
   \<and> iterative_product 5 = Fin 120"
proof -
  have "(5 / 2 :: rat) \<notin> \<int>" by simp
  then have 1: "\<nexists>k::nat. Fin (5 / 2) = Fin (of_nat k)"
    by (metis Ints_of_nat jsnum.inject)
  note t = factorial_contract [of "Fin (5 / 2)"]
  from t [of 171] have 2: "factorial (Fin (of_nat 171)) = Inl FactorialTooLarge" by simp
  from t [of 1] have 3: "factorial (Fin (of_nat 1)) = Inr (Fin 1)" by simp
  from t [of 5] have 4: "factorial (Fin (of_nat 5)) = Inr (iterative_product 5)"
    and 5: "iterative_product 5 = Fin (of_nat (fact 5))" by simp_all
  from 5 have 6: "iterative_product 5 = Fin 120" by (simp add: fact_numeral)
  from t [of 5] 1 have 7: "factorial (Fin (5 / 2)) = Inl FactorialNotNonNegativeInteger" by blast
  from 1 2 3 4 5 6 7 show ?thesis by blast
qed

section \<open>What the patterns of \<open>isValidExpression\<close> find\<close>

text \<open>
  Each of the three tests holds exactly when the string has a matching substring.
\<close>

lemma operator_chars:
  "is_operator_char c \<longleftrightarrow>
     c = of_char CHR ''+'' \<or> c = of_char CHR ''-'' \<or> c = of_char CHR ''*'' \<or> c = of_char CHR ''/''"
  "is_second_operator_char c \<longleftrightarrow>
     c = of_char CHR ''+'' \<or> c = of_char CHR ''*'' \<or> c = of_char CHR ''/''"
  by (auto simp: is_operator_char_def is_second_operator_char_def ascii_def)

lemma has_operator_run_iff:
  "has_operator_run s \<longleftrightarrow>
     (\<exists>u a b c v. s = u @ [a, b, c] @ v \<and> is_operator_char a \<and> is_operator_char b \<and> is_operator_char c)"
proof (induction s rule: has_operator_run.induct)
  case (1 a b c s)
  show ?case
  proof
    assume "has_operator_run (a # b # c # s)"
    then consider "is_operator_char a \<and> is_operator_char b \<and> is_operator_char c"
      | "has_operator_run (b # c # s)" by auto
    then show "\<exists>u a' b' c' v. a # b # c # s = u @ [a', b', c'] @ v
        \<and> is_operator_char a' \<and> is_operator_char b' \<and> is_operator_char c'"
    proof cases
      case 1
      then have "a # b # c # s = [] @ [a, b, c] @ s \<and> is_operator_char a \<and> is_operator_char b \<and> is_operator_char c"
        by simp
      then show ?thesis by blast
    next
      case 2
      with "1.IH" obtain u a' b' c' v where "b # c # s = u @ [a', b', c'] @ v"
        "is_operator_char a'" "is_operator_char b'" "is_operator_char c'" by blast
      then have "a # b # c # s = (a # u) @ [a', b', c'] @ v \<and> is_operator_char a' \<and> is_operator_char b' \<and> is_operator_char c'"
        by simp
      then show ?thesis by blast
    qed
  next
    assume "\<exists>u a' b' c' v. a # b # c # s = u @ [a', b', c'] @ v
        \<and> is_operator_char a' \<and> is_operator_char b' \<and> is_operator_char c'"
    then obtain u a' b' c' v where eq: "a # b # c # s = u @ [a', b', c'] @ v"
      and ops: "is_operator_char a'" "is_operator_char b'" "is_operator_char c'" by blast
    show "has_operator_run (a # b # c # s)"
    proof (cases u)
      case Nil
      with eq ops show ?thesis by simp
    next
      case (Cons x u')
      with eq have "b # c # s = u' @ [a', b', c'] @ v" by simp
      with ops "1.IH" have "has_operator_run (b # c # s)" by blast
      then show ?thesis by simp
    qed
  qed
qed (auto simp: append_eq_Cons_conv)

lemma has_operator_pair_iff:
  "has_operator_pair s \<longleftrightarrow>
     (\<exists>u a b v. s = u @ [a, b] @ v \<and> is_operator_char a \<and> is_second_operator_char b)"
proof (induction s rule: has_operator_pair.induct)
  case (1 a b s)
  show ?case
  proof
    assume "has_operator_pair (a # b # s)"
    then consider "is_operator_char a \<and> is_second_operator_char b" | "has_operator_pair (b # s)"
      by auto
    then show "\<exists>u a' b' v. a # b # s = u @ [a', b'] @ v
        \<and> is_operator_char a' \<and> is_second_operator_char b'"
    proof cases
      case 1
      then have "a # b # s = [] @ [a, b] @ s \<and> is_operator_char a \<and> is_second_operator_char b"
        by simp
      then show ?thesis by blast
    next
      case 2
      with "1.IH" obtain u a' b' v where "b # s = u @ [a', b'] @ v"
        "is_operator_char a'" "is_second_operator_char b'" by blast
      then have "a # b # s = (a # u) @ [a', b'] @ v \<and> is_operator_char a' \<and> is_second_operator_char b'"
        by simp
      then show ?thesis by blast
    qed
  next
    assume "\<exists>u a' b' v. a # b # s = u @ [a', b'] @ v
        \<and> is_operator_char a' \<and> is_second_operator_char b'"
    then obtain u a' b' v where eq: "a # b # s = u @ [a', b'] @ v"
      and ops: "is_operator_char a'" "is_second_operator_char b'" by blast
    show "has_operator_pair (a # b # s)"
    proof (cases u)
      case Nil
      with eq ops show ?thesis by simp
    next
      case (Cons x u')
      with eq have "b # s = u' @ [a', b'] @ v" by simp
      with ops "1.IH" have "has_operator_pair (b # s)" by blast
      then show ?thesis by simp
    qed
  qed
qed (auto simp: append_eq_Cons_conv)

lemma has_power_operator_iff:
  "has_power_operator s \<longleftrightarrow> (\<exists>u v. s = u @ ascii ''**'' @ v)"
proof (induction s rule: has_power_operator.induct)
  case (1 a b s)
  show ?case
  proof
    assume "has_power_operator (a # b # s)"
    then consider "a = of_char CHR ''*'' \<and> b = of_char CHR ''*''" | "has_power_operator (b # s)"
      by auto
    then show "\<exists>u v. a # b # s = u @ ascii ''**'' @ v"
    proof cases
      case 1
      then have "a # b # s = [] @ ascii ''**'' @ s" by (simp add: ascii_def)
      then show ?thesis by blast
    next
      case 2
      with "1.IH" obtain u v where "b # s = u @ ascii ''**'' @ v" by blast
      then have "a # b # s = (a # u) @ ascii ''**'' @ v" by simp
      then show ?thesis by blast
    qed
  next
    assume "\<exists>u v. a # b # s = u @ ascii ''**'' @ v"
    then obtain u v where eq: "a # b # s = u @ ascii ''**'' @ v" by blast
    show "has_power_operator (a # b # s)"
    proof (cases u)
      case Nil
      with eq show ?thesis by (simp add: ascii_def)
    next
      case (Cons x u')
      with eq have "b # s = u' @ ascii ''**'' @ v" by simp
      with "1.IH" have "has_power_operator (b # s)" by blast
      then show ?thesis by simp
    qed
  qed
qed (auto simp: append_eq_Cons_conv ascii_def)

section \<open>The two ways out of \<open>evaluate\<close> after the rewriting\<close>

lemma evaluate_invalid:
  assumes "processFunctionCalls H (angleMode this)
             (normalize_operators (substitute_constants H (lastResult this) expr)) = Inr p"
    and "\<not> isValidExpression p"
  shows "evaluate H this expr = Inl (CalculationError InvalidExpression)"
  using assms by (simp add: evaluate_def evaluate_body_def and_then_def)

text \<open>
  What \<open>evaluate\<close> does with the value \<open>r\<close> of a valid string: it converts \<open>r\<close> to a
  number \<open>n\<close> for the two tests, and returns \<open>r\<close> itself unless \<open>n\<close> is NaN or \<open>r\<close> is
  one of the two infinite numbers.
\<close>

lemma evaluate_valid_value:
  assumes "processFunctionCalls H (angleMode this)
             (normalize_operators (substitute_constants H (lastResult this) expr)) = Inr p"
    and "isValidExpression p"
    and "run_function H p = Inr r"
  shows "evaluate H this expr =
      (case ToNumber H r of
         Inl e \<Rightarrow> Inl (CalculationError e)
       | Inr n \<Rightarrow>
           if n = NaN then Inl (CalculationError ResultNotANumber)
           else if r = JNumber PosInf \<or> r = JNumber NegInf
           then Inl (CalculationError ResultInfinite)
           else Inr r)"
proof -
  from assms(2) have ok: "list_all allowed_char p"
    by (simp add: isValidExpression_def split: if_splits)
  have fin: "r \<noteq> JNumber PosInf \<and> r \<noteq> JNumber NegInf"
    if "ToNumber H r = Inr n" "Number_isFinite n" for n
    using that by (cases r; cases n) auto
  show ?thesis
  proof (cases "ToNumber H r")
    case (Inl e)
    with assms ok show ?thesis
      by (simp add: evaluate_def evaluate_body_def and_then_def safeEvaluate_def isFinite_def)
  next
    case (Inr n)
    with assms ok fin [OF Inr] show ?thesis
      by (cases n)
        (simp_all add: evaluate_def evaluate_body_def and_then_def safeEvaluate_def
          isFinite_def isNaN_def)
  qed
qed

lemma evaluate_valid:
  assumes "processFunctionCalls H (angleMode this)
             (normalize_operators (substitute_constants H (lastResult this) expr)) = Inr p"
    and "isValidExpression p"
    and "run_function H p = Inr (JNumber v)"
  shows "evaluate H this expr =
      (case v of
         NaN \<Rightarrow> Inl (CalculationError ResultNotANumber)
       | PosInf \<Rightarrow> Inl (CalculationError ResultInfinite)
       | NegInf \<Rightarrow> Inl (CalculationError ResultInfinite)
       | Fin x \<Rightarrow> Inr (JNumber (Fin x)))"
  unfolding evaluate_valid_value [OF assms] by (cases v) simp_all


lemma rewrite_identifier:
  "processFunctionCalls H mode (normalize_operators (substitute_constants H lr (ascii ''true'')))
     = Inr (ascii ''true'')"
  "processFunctionCalls H mode (normalize_operators (substitute_constants H lr (ascii ''null'')))
     = Inr (ascii ''null'')"
  by (simp_all add: rewrite_defs char_class_defs)

lemma valid_identifier:
  "isValidExpression (ascii ''true'')" "isValidExpression (ascii ''null'')"
  by (simp_all add: validation_defs char_class_defs)

lemma rewrite_division_by_zero:
  "processFunctionCalls H mode (normalize_operators (substitute_constants H lr (ascii ''1/0''))) = Inr (ascii ''1/0'')"
  by (simp add: rewrite_defs char_class_defs)

lemma valid_division_by_zero: "isValidExpression (ascii ''1/0'')"
  by (simp add: validation_defs char_class_defs)

section \<open>Examples\<close>

lemma evaluate_double_plus:
  "evaluate H this (ascii ''2++3'') = Inl (CalculationError InvalidExpression)"
  by (simp add: evaluate_def evaluate_body_def rewrite_defs validation_defs char_class_defs)

lemma evaluate_sum_sample:
  "evaluate sample_host this (ascii ''2+3'') = Inr (JNumber (Fin 5))"
  by (simp add: evaluate_def evaluate_body_def rewrite_defs validation_defs char_class_defs
      sample_host_defs)

text \<open>
  The factorial examples of the spec, through \<open>evaluate\<close>: the argument is validated,
  parsed, passed to \<open>factorial\<close>, and the result takes the place of the call.
\<close>

lemma evaluate_factorial_sample:
  "evaluate sample_host this (ascii ''factorial(5)'') = Inr (JNumber (Fin 120))"
  by (simp add: evaluate_def evaluate_body_def rewrite_defs validation_defs char_class_defs
      sample_host_defs factorial_5 decimal.simps)

lemma evaluate_factorial_negative:
  "evaluate sample_host this (ascii ''factorial(-1)'')
     = Inl (CalculationError FactorialNotNonNegativeInteger)"
  by (simp add: evaluate_def evaluate_body_def rewrite_defs validation_defs char_class_defs
      sample_host_defs factorial_def)

lemma evaluate_factorial_fraction:
  "evaluate sample_host this (ascii ''factorial(2.5)'')
     = Inl (CalculationError FactorialNotNonNegativeInteger)"
  by (simp add: evaluate_def evaluate_body_def rewrite_defs validation_defs char_class_defs
      sample_host_defs factorial_def Number_isInteger_iff del: Number_isInteger.simps)

lemma evaluate_factorial_large:
  "evaluate sample_host this (ascii ''factorial(171)'')
     = Inl (CalculationError FactorialTooLarge)"
  by (simp add: evaluate_def evaluate_body_def rewrite_defs validation_defs char_class_defs
      sample_host_defs factorial_def js_gt_def)

section \<open>Validation of operator sequences\<close>

text \<open>
  Claim C2, as the code has it. The validation rejects every string that contains three
  arithmetic operators in a row, and every string that contains an arithmetic operator
  directly followed by \<open>+\<close>, \<open>*\<close> or \<open>/\<close> when the string has no \<open>**\<close> in it. A
  minus sign directly after an operator is not an offence (it is the sign of the next
  operand). A rewritten string the validation rejects makes \<open>evaluate\<close> fail with
  \<open>Invalid expression\<close>; \<open>2++3\<close> is rejected and fails so.
\<close>

theorem validation_rejects_operator_sequences:
  "(is_operator_char a \<and> is_operator_char b \<and> is_operator_char c
      \<longrightarrow> \<not> isValidExpression (u @ [a, b, c] @ v))
   \<and> (is_operator_char a \<and> is_second_operator_char b \<and> (\<nexists>x y. u @ [a, b] @ v = x @ ascii ''**'' @ y)
      \<longrightarrow> \<not> isValidExpression (u @ [a, b] @ v))
   \<and> (processFunctionCalls H (angleMode this)
          (normalize_operators (substitute_constants H (lastResult this) expr)) = Inr p
        \<and> \<not> isValidExpression p
      \<longrightarrow> evaluate H this expr = Inl (CalculationError InvalidExpression))
   \<and> \<not> isValidExpression (ascii ''2++3'')
   \<and> evaluate H this (ascii ''2++3'') = Inl (CalculationError InvalidExpression)"
proof (intro conjI impI)
  assume "is_operator_char a \<and> is_operator_char b \<and> is_operator_char c"
  then have "has_operator_run (u @ [a, b, c] @ v)"
    unfolding has_operator_run_iff by blast
  then show "\<not> isValidExpression (u @ [a, b, c] @ v)"
    by (simp add: isValidExpression_def)
next
  assume h: "is_operator_char a \<and> is_second_operator_char b
      \<and> (\<nexists>x y. u @ [a, b] @ v = x @ ascii ''**'' @ y)"
  then have "has_operator_pair (u @ [a, b] @ v)"
    unfolding has_operator_pair_iff by blast
  moreover from h have "\<not> has_power_operator (u @ [a, b] @ v)"
    unfolding has_power_operator_iff by blast
  ultimately show "\<not> isValidExpression (u @ [a, b] @ v)"
    by (simp add: isValidExpression_def)
next
  assume "processFunctionCalls H (angleMode this)
          (normalize_operators (substitute_constants H (lastResult this) expr)) = Inr p
        \<and> \<not> isValidExpression p"
  then show "evaluate H this expr = Inl (CalculationError InvalidExpression)"
    using evaluate_invalid by blast
next
  show "\<not> isValidExpression (ascii ''2++3'')"
    by (simp add: validation_defs char_class_defs)
next
  show "evaluate H this (ascii ''2++3'') = Inl (CalculationError InvalidExpression)"
    by (rule evaluate_double_plus)
qed

theorem validation_rejects_operator_sequences_witness:
  "is_operator_char (of_char CHR ''+'') \<and> is_operator_char (of_char CHR ''-'')
   \<and> is_operator_char (of_char CHR ''*'')
   \<and> \<not> isValidExpression (ascii ''2'' @ [of_char CHR ''+'', of_char CHR ''-'', of_char CHR ''*''] @ ascii ''3'')
   \<and> is_second_operator_char (of_char CHR ''+'')
   \<and> (\<nexists>x y. ascii ''2'' @ [of_char CHR ''+'', of_char CHR ''+''] @ ascii ''3'' = x @ ascii ''**'' @ y)
   \<and> \<not> isValidExpression (ascii ''2'' @ [of_char CHR ''+'', of_char CHR ''+''] @ ascii ''3'')
   \<and> processFunctionCalls sample_host (angleMode new_calculator)
        (normalize_operators (substitute_constants sample_host (lastResult new_calculator) (ascii ''2++3'')))
       = Inr (ascii ''2++3'')
   \<and> evaluate sample_host new_calculator (ascii ''2++3'') = Inl (CalculationError InvalidExpression)"
proof -
  have 1: "is_operator_char (of_char CHR ''+'') \<and> is_operator_char (of_char CHR ''-'')
      \<and> is_operator_char (of_char CHR ''*'') \<and> is_second_operator_char (of_char CHR ''+'')"
    by (simp add: operator_chars)
  have 2: "\<nexists>x y. ascii ''2'' @ [of_char CHR ''+'', of_char CHR ''+''] @ ascii ''3'' = x @ ascii ''**'' @ y"
    unfolding has_power_operator_iff [symmetric] by (simp add: ascii_def)
  have 3: "processFunctionCalls sample_host (angleMode new_calculator)
        (normalize_operators (substitute_constants sample_host (lastResult new_calculator) (ascii ''2++3'')))
       = Inr (ascii ''2++3'')"
    by (simp add: rewrite_defs char_class_defs)
  note t1 = validation_rejects_operator_sequences
    [of "of_char CHR ''+''" "of_char CHR ''-''" "of_char CHR ''*''" "ascii ''2''" "ascii ''3''"
        sample_host new_calculator "ascii ''2++3''" "ascii ''2++3''"]
  note t2 = validation_rejects_operator_sequences
    [of "of_char CHR ''+''" "of_char CHR ''+''" "of_char CHR ''*''" "ascii ''2''" "ascii ''3''"
        sample_host new_calculator "ascii ''2++3''" "ascii ''2++3''"]
  from t1 1 have a: "\<not> isValidExpression (ascii ''2'' @ [of_char CHR ''+'', of_char CHR ''-'', of_char CHR ''*''] @ ascii ''3'')"
    by blast
  from t2 1 2 have b: "\<not> isValidExpression (ascii ''2'' @ [of_char CHR ''+'', of_char CHR ''+''] @ ascii ''3'')"
    by blast
  from t1 have c: "evaluate sample_host new_calculator (ascii ''2++3'') = Inl (CalculationError InvalidExpression)"
    by blast
  from 1 2 3 a b c show ?thesis by blast
qed

text \<open>
  Claim C2 as stated, that any two adjacent operators other than \<open>**\<close> are rejected,
  fails on \<open>2*-3\<close>: \<open>*\<close> and \<open>-\<close> are adjacent arithmetic operators and the string is
  valid.
\<close>

theorem adjacent_operators_counterexample:
  "is_operator_char (of_char CHR ''*'') \<and> is_operator_char (of_char CHR ''-'')
   \<and> ascii ''2*-3'' = ascii ''2'' @ [of_char CHR ''*'', of_char CHR ''-''] @ ascii ''3''
   \<and> isValidExpression (ascii ''2*-3'')"
  by (simp add: validation_defs char_class_defs)

text \<open>
  The second check is skipped altogether as soon as \<open>**\<close> occurs anywhere in the
  string, so a pair elsewhere passes then.
\<close>

lemma power_operator_anywhere_example: "isValidExpression (ascii ''2**3++4'')"
  by (simp add: validation_defs char_class_defs)

section \<open>Classification of the result\<close>

text \<open>
  Claim C3. Let \<open>p\<close> be the string \<open>evaluate\<close> obtains from an expression by the three
  rewriting stages, let \<open>p\<close> pass the validation, and let the engine return the value
  \<open>r\<close> for it. When \<open>r\<close> is a number \<open>v\<close>, \<open>evaluate\<close> does what the claim says: it
  fails with \<open>Result is not a number\<close> when \<open>v\<close> is NaN, fails with
  \<open>Result is infinite\<close> when \<open>v\<close> is an infinity (both failures are the spec's
  NonFiniteResult), and returns \<open>v\<close> when it is finite; \<open>1/0\<close>, for which an IEEE 754
  engine returns \<open>Infinity\<close>, fails with \<open>Result is infinite\<close>. But the result need
  not be a number, and \<open>evaluate\<close> tests it with the global \<open>isFinite\<close> and \<open>isNaN\<close>,
  which convert it to a number first: whatever converts to a finite number is returned
  as it is. The expressions \<open>true\<close> and \<open>null\<close> are made of permitted characters,
  pass the rewriting and the validation unchanged, and \<open>evaluate\<close> returns the boolean
  \<open>true\<close> and the value \<open>null\<close> for them: neither an error nor a finite double, so
  the claim does not hold for every expression that passes the validation.
\<close>

theorem evaluate_classifies_result:
  "(processFunctionCalls H (angleMode this)
        (normalize_operators (substitute_constants H (lastResult this) expr)) = Inr p
      \<and> isValidExpression p \<and> run_function H p = Inr (JNumber v)
    \<longrightarrow> evaluate H this expr =
          (case v of
             NaN \<Rightarrow> Inl (CalculationError ResultNotANumber)
           | PosInf \<Rightarrow> Inl (CalculationError ResultInfinite)
           | NegInf \<Rightarrow> Inl (CalculationError ResultInfinite)
           | Fin x \<Rightarrow> Inr (JNumber (Fin x))))
   \<and> (run_function H (ascii ''1/0'') = Inr (JNumber PosInf)
    \<longrightarrow> evaluate H this (ascii ''1/0'') = Inl (CalculationError ResultInfinite))
   \<and> (processFunctionCalls H (angleMode this)
        (normalize_operators (substitute_constants H (lastResult this) expr)) = Inr p
      \<and> isValidExpression p \<and> run_function H p = Inr r
    \<longrightarrow> evaluate H this expr =
          (case ToNumber H r of
             Inl e \<Rightarrow> Inl (CalculationError e)
           | Inr n \<Rightarrow>
               if n = NaN then Inl (CalculationError ResultNotANumber)
               else if r = JNumber PosInf \<or> r = JNumber NegInf
               then Inl (CalculationError ResultInfinite)
               else Inr r))
   \<and> isValidExpression (ascii ''true'')
   \<and> (run_function H (ascii ''true'') = Inr (JBoolean True)
    \<longrightarrow> evaluate H this (ascii ''true'') = Inr (JBoolean True))
   \<and> isValidExpression (ascii ''null'')
   \<and> (run_function H (ascii ''null'') = Inr JNull
    \<longrightarrow> evaluate H this (ascii ''null'') = Inr JNull)"
proof (intro conjI impI)
  assume "processFunctionCalls H (angleMode this)
        (normalize_operators (substitute_constants H (lastResult this) expr)) = Inr p
      \<and> isValidExpression p \<and> run_function H p = Inr (JNumber v)"
  then show "evaluate H this expr =
          (case v of
             NaN \<Rightarrow> Inl (CalculationError ResultNotANumber)
           | PosInf \<Rightarrow> Inl (CalculationError ResultInfinite)
           | NegInf \<Rightarrow> Inl (CalculationError ResultInfinite)
           | Fin x \<Rightarrow> Inr (JNumber (Fin x)))"
    using evaluate_valid by blast
next
  assume eng: "run_function H (ascii ''1/0'') = Inr (JNumber PosInf)"
  have r: "processFunctionCalls H (angleMode this)
      (normalize_operators (substitute_constants H (lastResult this) (ascii ''1/0''))) = Inr (ascii ''1/0'')"
    by (rule rewrite_division_by_zero)
  from evaluate_valid [OF r valid_division_by_zero eng]
  show "evaluate H this (ascii ''1/0'') = Inl (CalculationError ResultInfinite)"
    by simp
next
  assume "processFunctionCalls H (angleMode this)
        (normalize_operators (substitute_constants H (lastResult this) expr)) = Inr p
      \<and> isValidExpression p \<and> run_function H p = Inr r"
  then show "evaluate H this expr =
          (case ToNumber H r of
             Inl e \<Rightarrow> Inl (CalculationError e)
           | Inr n \<Rightarrow>
               if n = NaN then Inl (CalculationError ResultNotANumber)
               else if r = JNumber PosInf \<or> r = JNumber NegInf
               then Inl (CalculationError ResultInfinite)
               else Inr r)"
    using evaluate_valid_value by blast
next
  show "isValidExpression (ascii ''true'')" by (rule valid_identifier(1))
next
  assume eng: "run_function H (ascii ''true'') = Inr (JBoolean True)"
  have r: "processFunctionCalls H (angleMode this)
      (normalize_operators (substitute_constants H (lastResult this) (ascii ''true''))) = Inr (ascii ''true'')"
    by (rule rewrite_identifier(1))
  from evaluate_valid_value [OF r valid_identifier(1) eng]
  show "evaluate H this (ascii ''true'') = Inr (JBoolean True)"
    by simp
next
  show "isValidExpression (ascii ''null'')" by (rule valid_identifier(2))
next
  assume eng: "run_function H (ascii ''null'') = Inr JNull"
  have r: "processFunctionCalls H (angleMode this)
      (normalize_operators (substitute_constants H (lastResult this) (ascii ''null''))) = Inr (ascii ''null'')"
    by (rule rewrite_identifier(2))
  from evaluate_valid_value [OF r valid_identifier(2) eng]
  show "evaluate H this (ascii ''null'') = Inr JNull"
    by simp
qed

theorem evaluate_classifies_result_witness:
  "run_function sample_host (ascii ''1/0'') = Inr (JNumber PosInf)
   \<and> evaluate sample_host new_calculator (ascii ''1/0'') = Inl (CalculationError ResultInfinite)
   \<and> processFunctionCalls sample_host (angleMode new_calculator)
        (normalize_operators (substitute_constants sample_host (lastResult new_calculator) (ascii ''2+3'')))
       = Inr (ascii ''2+3'')
   \<and> isValidExpression (ascii ''2+3'')
   \<and> run_function sample_host (ascii ''2+3'') = Inr (JNumber (Fin 5))
   \<and> evaluate sample_host new_calculator (ascii ''2+3'') = Inr (JNumber (Fin 5))
   \<and> run_function sample_host (ascii ''true'') = Inr (JBoolean True)
   \<and> evaluate sample_host new_calculator (ascii ''true'') = Inr (JBoolean True)
   \<and> run_function sample_host (ascii ''null'') = Inr JNull
   \<and> evaluate sample_host new_calculator (ascii ''null'') = Inr JNull"
proof -
  have 1: "run_function sample_host (ascii ''1/0'') = Inr (JNumber PosInf)"
    by (simp add: sample_host_defs ascii_def)
  have 2: "processFunctionCalls sample_host (angleMode new_calculator)
        (normalize_operators (substitute_constants sample_host (lastResult new_calculator) (ascii ''2+3'')))
       = Inr (ascii ''2+3'')"
    by (simp add: rewrite_defs char_class_defs)
  have 3: "isValidExpression (ascii ''2+3'')"
    by (simp add: validation_defs char_class_defs)
  have 4: "run_function sample_host (ascii ''2+3'') = Inr (JNumber (Fin 5))"
    by (simp add: sample_host_defs ascii_def)
  have 5: "run_function sample_host (ascii ''true'') = Inr (JBoolean True)"
    by (simp add: sample_host_defs ascii_def)
  have 6: "run_function sample_host (ascii ''null'') = Inr JNull"
    by (simp add: sample_host_defs ascii_def)
  from evaluate_classifies_result
    [of sample_host new_calculator "ascii ''2+3''" "ascii ''2+3''" "Fin 5" "JNumber (Fin 5)"]
    1 2 3 4 5 6
  show ?thesis by simp
qed

section \<open>Constant substitution works on tokens\<close>

declare replace_word.simps(2) [simp del]

lemma starts_outside_dropWhile [simp]: "starts_outside_word (dropWhile is_word_char s)"
  by (induction s) (auto simp: starts_outside_word_def)

lemma concat_tokens [simp]: "concat (tokens s) = s"
  by (induction s rule: tokens.induct) auto

lemma tokens_word:
  assumes "is_word t"
  shows "tokens t = [t]"
proof -
  from assms obtain c cs where t: "t = c # cs" and c: "is_word_char c"
    and cs: "\<forall>x\<in>set cs. is_word_char x"
    by (cases t) (auto simp: is_word_def list_all_iff)
  from cs have tw: "takeWhile is_word_char cs = cs" and dw: "dropWhile is_word_char cs = []"
    by simp_all
  show ?thesis by (simp add: t c tw dw)
qed

text \<open>Inside a word (\<open>prev\<close> true) nothing matches up to the end of the word.\<close>

lemma replace_word_inside:
  assumes "is_word w" "list_all is_word_char u"
  shows "replace_word w r True (u @ s) = u @ replace_word w r True s"
  using assms(2)
proof (induction u)
  case Nil
  then show ?case by simp
next
  case (Cons c u)
  from assms(1) have "is_word_char (hd w)"
    by (cases w) (auto simp: is_word_def)
  then have "\<not> word_match w True (c # u @ s)"
    by (simp add: word_match_def)
  with Cons show ?case by (simp add: replace_word.simps(2))
qed

lemma replace_word_prev:
  assumes "is_word w" "starts_outside_word s"
  shows "replace_word w r True s = replace_word w r False s"
proof (cases s)
  case Nil
  then show ?thesis by simp
next
  case (Cons c cs)
  with assms(2) have c: "\<not> is_word_char c" by (simp add: starts_outside_word_def)
  from assms(1) have "is_word_char (hd w)" "w \<noteq> []"
    by (cases w; auto simp: is_word_def)+
  with c have "hd w \<noteq> c" by auto
  then have "\<not> word_match w p (c # cs)" for p
    using \<open>w \<noteq> []\<close> by (cases w) (auto simp: word_match_def)
  with Cons show ?thesis by (simp add: replace_word.simps(2))
qed


lemma is_word_ends:
  assumes "is_word w"
  shows "is_word_char (hd w)" "is_word_char (last w)" "w \<noteq> []"
  using assms by (auto simp: is_word_def list_all_iff)

lemma word_match_run:
  assumes w: "is_word w" and t: "is_word t" and s: "starts_outside_word s"
  shows "word_match w False (t @ s) \<longleftrightarrow> t = w"
proof
  assume "t = w"
  moreover from s have "(case s of [] \<Rightarrow> False | d # _ \<Rightarrow> is_word_char d) = False"
    by (simp add: starts_outside_word_def split: list.splits)
  ultimately show "word_match w False (t @ s)"
    using is_word_ends [OF w] by (simp add: word_match_def)
next
  assume wm: "word_match w False (t @ s)"
  then have tk: "take (length w) (t @ s) = w"
    and bd: "\<not> (case drop (length w) (t @ s) of [] \<Rightarrow> False | d # _ \<Rightarrow> is_word_char d)"
    using is_word_ends [OF w] by (auto simp: word_match_def)
  from t have tw: "\<forall>x\<in>set t. is_word_char x" by (simp add: is_word_def list_all_iff)
  from w have ww: "\<forall>x\<in>set w. is_word_char x" by (simp add: is_word_def list_all_iff)
  consider "length w < length t" | "length w = length t" | "length t < length w"
    by linarith
  then show "t = w"
  proof cases
    case 1
    then obtain d ds where d: "drop (length w) t = d # ds"
      by (cases "drop (length w) t") auto
    then have "d \<in> set t" by (metis in_set_dropD list.set_intros(1))
    with tw have "is_word_char d" by blast
    moreover from 1 d have "drop (length w) (t @ s) = d # ds @ s" by simp
    ultimately show ?thesis using bd by simp
  next
    case 2
    with tk show ?thesis by simp
  next
    case 3
    with tk have eq: "w = t @ take (length w - length t) s" by simp
    show ?thesis
    proof (cases s)
      case Nil
      with eq show ?thesis by simp
    next
      case (Cons d s')
      with s have "\<not> is_word_char d" by (simp add: starts_outside_word_def)
      moreover from 3 Cons have "take (length w - length t) s = d # take (length w - length t - 1) s'"
        by (cases "length w - length t") simp_all
      with eq have "d \<in> set w" by (metis in_set_conv_decomp)
      ultimately show ?thesis using ww by blast
    qed
  qed
qed

lemma replace_word_run:
  assumes w: "is_word w" and t: "is_word t" and s: "starts_outside_word s"
  shows "replace_word w r False (t @ s) = substitute_token w r t @ replace_word w r False s"
proof -
  from t obtain c u where cu: "t = c # u" and c: "is_word_char c" and u: "list_all is_word_char u"
    by (cases t) (auto simp: is_word_def)
  show ?thesis
  proof (cases "t = w")
    case True
    then have "word_match w False (t @ s)"
      using word_match_run [OF w t s] by blast
    then have "replace_word w r False (t @ s)
        = r @ replace_word w r (is_word_char (last w)) (drop (length w - 1) (u @ s))"
      unfolding cu by (simp add: replace_word.simps(2))
    moreover from True cu have "drop (length w - 1) (u @ s) = s" by auto
    ultimately have "replace_word w r False (t @ s) = r @ replace_word w r True s"
      using is_word_ends [OF w] by simp
    with True show ?thesis
      by (simp add: substitute_token_def replace_word_prev [OF w s])
  next
    case False
    then have "\<not> word_match w False (t @ s)"
      using word_match_run [OF w t s] by blast
    then have "replace_word w r False (t @ s) = c # replace_word w r True (u @ s)"
      unfolding cu using c by (simp add: replace_word.simps(2))
    also have "\<dots> = t @ replace_word w r True s"
      by (simp add: cu replace_word_inside [OF w u])
    finally show ?thesis
      using False by (simp add: substitute_token_def replace_word_prev [OF w s])
  qed
qed

lemma replace_word_other:
  assumes w: "is_word w" and c: "\<not> is_word_char c"
  shows "replace_word w r p (c # s) = c # replace_word w r False s"
proof -
  from c is_word_ends [OF w] have "hd w \<noteq> c" by auto
  then have "\<not> word_match w p (c # s)"
    using is_word_ends(3) [OF w] by (cases w) (auto simp: word_match_def)
  with c show ?thesis by (simp add: replace_word.simps(2))
qed

text \<open>One \<open>replace\<close> with a word pattern substitutes whole tokens.\<close>

lemma replace_word_tokens:
  assumes w: "is_word w"
  shows "replace_word w r False s = concat (map (substitute_token w r) (tokens s))"
proof (induction s rule: tokens.induct)
  case 1
  then show ?case by simp
next
  case (2 c cs)
  show ?case
  proof (cases "is_word_char c")
    case True
    let ?t = "c # takeWhile is_word_char cs"
    let ?s = "dropWhile is_word_char cs"
    have t: "is_word ?t"
      using True by (auto simp: is_word_def list_all_iff dest: set_takeWhileD)
    have "replace_word w r False (c # cs) = replace_word w r False (?t @ ?s)" by simp
    also have "\<dots> = substitute_token w r ?t @ replace_word w r False ?s"
      by (rule replace_word_run [OF w t]) simp
    finally show ?thesis using True 2 by simp
  next
    case False
    have "substitute_token w r [c] = [c]"
      using False is_word_ends [OF w] by (cases w) (auto simp: substitute_token_def is_word_def)
    with False 2 show ?thesis by (simp add: replace_word_other [OF w])
  qed
qed


lemma takeWhile_append_outside:
  "starts_outside_word y \<Longrightarrow> takeWhile is_word_char (x @ y) = takeWhile is_word_char x"
  by (induction x) (auto simp: starts_outside_word_def split: list.splits)

lemma dropWhile_append_outside:
  "starts_outside_word y \<Longrightarrow> dropWhile is_word_char (x @ y) = dropWhile is_word_char x @ y"
  by (induction x) (auto simp: starts_outside_word_def split: list.splits)

lemma tokens_append:
  "starts_outside_word y \<Longrightarrow> tokens (x @ y) = tokens x @ tokens y"
proof (induction x rule: tokens.induct)
  case 1
  then show ?case by simp
next
  case (2 c cs)
  then show ?case
    by (simp add: takeWhile_append_outside dropWhile_append_outside)
qed

lemma substituted_starts_outside:
  assumes "is_word w" "starts_outside_word s"
  shows "starts_outside_word (concat (map (substitute_token w r) (tokens s)))"
proof (cases s)
  case Nil
  then show ?thesis by (simp add: starts_outside_word_def)
next
  case (Cons d s')
  with assms(2) have d: "\<not> is_word_char d" by (simp add: starts_outside_word_def)
  with is_word_ends [OF assms(1)] have "[d] \<noteq> w" by auto
  with Cons d show ?thesis by (simp add: substitute_token_def starts_outside_word_def)
qed

text \<open>The tokens of the string one \<open>replace\<close> returns.\<close>

declare tokens.simps(2) [simp del]

lemma tokens_substituted:
  assumes w: "is_word w"
  shows "tokens (concat (map (substitute_token w r) (tokens s)))
       = concat (map (expand_token w r) (tokens s))"
proof (induction s rule: tokens.induct)
  case 1
  then show ?case by simp
next
  case (2 c cs)
  show ?case
  proof (cases "is_word_char c")
    case True
    let ?t = "c # takeWhile is_word_char cs"
    let ?s = "dropWhile is_word_char cs"
    have t: "is_word ?t"
      using True by (auto simp: is_word_def list_all_iff dest: set_takeWhileD)
    have out: "starts_outside_word (concat (map (substitute_token w r) (tokens ?s)))"
      by (rule substituted_starts_outside [OF w]) simp
    have ts: "tokens (c # cs) = ?t # tokens ?s"
      using True by (simp add: tokens.simps(2))
    have "tokens (substitute_token w r ?t) = expand_token w r ?t"
      by (simp add: substitute_token_def expand_token_def tokens_word [OF t])
    with True 2 show ?thesis
      unfolding ts by (simp add: tokens_append [OF out])
  next
    case False
    with is_word_ends [OF w] have "[c] \<noteq> w" by auto
    moreover have ts: "tokens (c # cs) = [c] # tokens cs"
      using False by (simp add: tokens.simps(2))
    ultimately show ?thesis
      unfolding ts using False 2 by (simp add: substitute_token_def expand_token_def tokens.simps(2))
  qed
qed

lemma concat_map_concat:
  "concat (map h (concat (map g ts))) = concat (map (\<lambda>t. concat (map h (g t))) ts)"
  by (induction ts) simp_all

lemma constant_words:
  "is_word (ascii ''pi'')" "is_word (ascii ''e'')" "is_word (ascii ''phi'')" "is_word (ascii ''ans'')"
  by (simp_all add: is_word_def char_class_defs)

lemma constant_tokens:
  "tokens constants_pi = [ascii ''3'', ascii ''.'', ascii ''141592653589793'']"
  "tokens constants_e = [ascii ''2'', ascii ''.'', ascii ''718281828459045'']"
  "tokens constants_phi = [ascii ''1'', ascii ''.'', ascii ''618033988749895'']"
  by (simp_all add: constants_pi_def constants_e_def constants_phi_def char_class_defs tokens.simps(2))

lemma constant_value_stages:
  "concat (map (substitute_token (ascii ''ans'') (ans_string H lr))
     (concat (map (expand_token (ascii ''phi'') constants_phi)
       (concat (map (expand_token (ascii ''e'') constants_e)
         (expand_token (ascii ''pi'') constants_pi t))))))
   = constant_value H lr t"
proof -
  consider "t = ascii ''pi''" | "t = ascii ''e''" | "t = ascii ''phi''" | "t = ascii ''ans''"
    | "t \<noteq> ascii ''pi''" "t \<noteq> ascii ''e''" "t \<noteq> ascii ''phi''" "t \<noteq> ascii ''ans''"
    by blast
  then show ?thesis
    by cases
      (simp_all add: expand_token_def substitute_token_def constant_value_def constants_pi_def
        constants_e_def constants_phi_def char_class_defs tokens.simps(2))
qed

lemma substitute_constants_tokens:
  "substitute_constants H lr expr = concat (map (constant_value H lr) (tokens expr))"
proof -
  let ?s1 = "replace_word (ascii ''pi'') constants_pi False expr"
  let ?s2 = "replace_word (ascii ''e'') constants_e False ?s1"
  let ?s3 = "replace_word (ascii ''phi'') constants_phi False ?s2"
  note w = constant_words
  have t1: "tokens ?s1 = concat (map (expand_token (ascii ''pi'') constants_pi) (tokens expr))"
    by (simp only: replace_word_tokens [OF w(1)] tokens_substituted [OF w(1)])
  have t2: "tokens ?s2 = concat (map (expand_token (ascii ''e'') constants_e) (tokens ?s1))"
    by (simp only: replace_word_tokens [OF w(2)] tokens_substituted [OF w(2)])
  have t3: "tokens ?s3 = concat (map (expand_token (ascii ''phi'') constants_phi) (tokens ?s2))"
    by (simp only: replace_word_tokens [OF w(3)] tokens_substituted [OF w(3)])
  have "substitute_constants H lr expr
      = concat (map (substitute_token (ascii ''ans'') (ans_string H lr)) (tokens ?s3))"
    unfolding substitute_constants_def by (rule replace_word_tokens [OF w(4)])
  also have "\<dots> = concat (map (\<lambda>t.
      concat (map (substitute_token (ascii ''ans'') (ans_string H lr))
       (concat (map (expand_token (ascii ''phi'') constants_phi)
         (concat (map (expand_token (ascii ''e'') constants_e)
           (expand_token (ascii ''pi'') constants_pi t))))))) (tokens expr))"
    unfolding t3 t2 t1 by (simp only: concat_map_concat)
  also have "\<dots> = concat (map (constant_value H lr) (tokens expr))"
    by (simp only: constant_value_stages)
  finally show ?thesis .
qed

text \<open>
  Claim C4. The four \<open>replace\<close> calls at the start of \<open>evaluate\<close> together replace
  each token of the expression by its value: the tokens \<open>pi\<close>, \<open>e\<close>, \<open>phi\<close> and \<open>ans\<close> by
  their numbers (\<open>ans\<close> by the last result, or by 0 when there is none or when it is
  falsy), and every other token by itself. An \<open>e\<close> inside a longer run of word characters, such as the one in
  \<open>exp(\<close>, belongs to another token and stays.
\<close>

theorem constants_replace_whole_tokens:
  "substitute_constants H lr expr = concat (map (constant_value H lr) (tokens expr))
   \<and> concat (tokens expr) = expr
   \<and> (t \<notin> {ascii ''pi'', ascii ''e'', ascii ''phi'', ascii ''ans''} \<longrightarrow> constant_value H lr t = t)
   \<and> constant_value H lr (ascii ''pi'') = constants_pi
   \<and> constant_value H lr (ascii ''e'') = constants_e
   \<and> constant_value H lr (ascii ''phi'') = constants_phi
   \<and> constant_value H JNull (ascii ''ans'') = ascii ''0''
   \<and> (\<not> falsy (JNumber v)
      \<longrightarrow> constant_value H (JNumber v) (ascii ''ans'') = num_to_string H v)
   \<and> (falsy lr \<longrightarrow> constant_value H lr (ascii ''ans'') = ascii ''0'')
   \<and> (\<not> falsy lr \<longrightarrow> constant_value H lr (ascii ''ans'') = ToString H lr)
   \<and> substitute_constants H lr (ascii ''exp(1)'') = ascii ''exp(1)''"
proof (intro conjI impI)
  show "substitute_constants H lr expr = concat (map (constant_value H lr) (tokens expr))"
    by (rule substitute_constants_tokens)
  show "concat (tokens expr) = expr"
    by (rule concat_tokens)
  show "constant_value H lr t = t"
    if "t \<notin> {ascii ''pi'', ascii ''e'', ascii ''phi'', ascii ''ans''}"
    using that by (simp add: constant_value_def)
  show "constant_value H lr (ascii ''pi'') = constants_pi"
    by (simp add: constant_value_def)
  show "constant_value H lr (ascii ''e'') = constants_e"
    by (simp add: constant_value_def ascii_def)
  show "constant_value H lr (ascii ''phi'') = constants_phi"
    by (simp add: constant_value_def ascii_def)
  show "constant_value H JNull (ascii ''ans'') = ascii ''0''"
    by (simp add: constant_value_def ans_string_def falsy_def ascii_def)
  show "constant_value H (JNumber v) (ascii ''ans'') = num_to_string H v"
    if "\<not> falsy (JNumber v)"
    using that by (simp add: constant_value_def ans_string_def ascii_def)
  show "constant_value H lr (ascii ''ans'') = ascii ''0''" if "falsy lr"
    using that by (simp add: constant_value_def ans_string_def ascii_def)
  show "constant_value H lr (ascii ''ans'') = ToString H lr" if "\<not> falsy lr"
    using that by (simp add: constant_value_def ans_string_def ascii_def)
  show "substitute_constants H lr (ascii ''exp(1)'') = ascii ''exp(1)''"
    unfolding substitute_constants_tokens
    by (simp add: constant_value_def char_class_defs tokens.simps(2))
qed

theorem constants_replace_whole_tokens_witness:
  "substitute_constants sample_host JNull (ascii ''exp(e)+pi*ans'')
     = ascii ''exp(2.718281828459045)+3.141592653589793*0''
   \<and> ascii ''exp'' \<notin> {ascii ''pi'', ascii ''e'', ascii ''phi'', ascii ''ans''}
   \<and> constant_value sample_host JNull (ascii ''exp'') = ascii ''exp''
   \<and> \<not> falsy (JNumber (Fin 5))
   \<and> constant_value sample_host (JNumber (Fin 5)) (ascii ''ans'') = ascii ''5''
   \<and> falsy (JNumber (Fin 0))
   \<and> constant_value sample_host (JNumber (Fin 0)) (ascii ''ans'') = ascii ''0''"
proof -
  note t = constants_replace_whole_tokens [of sample_host _ _ "ascii ''exp''" "Fin 5"]
  have 1: "ascii ''exp'' \<notin> {ascii ''pi'', ascii ''e'', ascii ''phi'', ascii ''ans''}"
    by (simp add: ascii_def)
  have 2: "\<not> falsy (JNumber (Fin 5))" by (simp add: falsy_def)
  have 7: "falsy (JNumber (Fin 0))" by (simp add: falsy_def)
  from t [of JNull "ascii ''exp(e)+pi*ans''"]
  have "substitute_constants sample_host JNull (ascii ''exp(e)+pi*ans'')
      = concat (map (constant_value sample_host JNull) (tokens (ascii ''exp(e)+pi*ans'')))"
    by blast
  then have 3: "substitute_constants sample_host JNull (ascii ''exp(e)+pi*ans'')
     = ascii ''exp(2.718281828459045)+3.141592653589793*0''"
    by (simp add: constant_value_def ans_string_def falsy_def constants_pi_def constants_e_def
        char_class_defs tokens.simps(2))
  from t [of JNull "[]"] 1
  have 4: "constant_value sample_host JNull (ascii ''exp'') = ascii ''exp''" by blast
  from t [of "JNumber (Fin 5)" "[]"] 2
  have "constant_value sample_host (JNumber (Fin 5)) (ascii ''ans'')
      = num_to_string sample_host (Fin 5)"
    by blast
  then have 5: "constant_value sample_host (JNumber (Fin 5)) (ascii ''ans'') = ascii ''5''"
    by (simp add: sample_host_def decimal.simps ascii_def)
  from t [of "JNumber (Fin 0)" "[]"] 7
  have 6: "constant_value sample_host (JNumber (Fin 0)) (ascii ''ans'') = ascii ''0''"
    by blast
  from 1 2 3 4 5 6 7 show ?thesis by blast
qed

declare replace_word.simps(2) [simp]

section \<open>Angle mode in the rewriting of function calls\<close>

text \<open>
  Claim C5. In degree mode the rewriting multiplies the argument of \<open>sin\<close>, \<open>cos\<close> and
  \<open>tan\<close> by \<open>Math.PI / 180\<close>, as the claim says. It does not convert the result of
  \<open>asin\<close>, \<open>acos\<close> and \<open>atan\<close>: these go through the loop over the other functions,
  which never looks at the angle mode, so \<open>asin(1)\<close> is rewritten to \<open>Math.asin(1)\<close> in
  both modes and \<open>evaluate\<close> gives the same outcome (a value in radians) in both. The
  entries \<open>asin\<close>, \<open>acos\<close> and \<open>atan\<close> of \<open>this.functions\<close> do multiply by
  \<open>180 / Math.PI\<close> in degree mode, but \<open>processFunctionCalls\<close> uses only the names of
  that table.
\<close>

theorem inverse_trig_ignores_angle_mode:
  "processFunctionCalls H Deg (ascii ''asin(1)'') = Inr (ascii ''Math.asin(1)'')
   \<and> processFunctionCalls H Rad (ascii ''asin(1)'') = Inr (ascii ''Math.asin(1)'')
   \<and> processFunctionCalls H Deg (ascii ''acos(1)'') = Inr (ascii ''Math.acos(1)'')
   \<and> processFunctionCalls H Deg (ascii ''atan(1)'') = Inr (ascii ''Math.atan(1)'')
   \<and> evaluate H (this\<lparr>angleMode := Deg\<rparr>) (ascii ''asin(1)'')
      = evaluate H (this\<lparr>angleMode := Rad\<rparr>) (ascii ''asin(1)'')
   \<and> processFunctionCalls H Deg (ascii ''sin(90)'') = Inr (ascii ''Math.sin((90) * Math.PI / 180)'')
   \<and> processFunctionCalls H Rad (ascii ''sin(90)'') = Inr (ascii ''Math.sin(90)'')"
proof (intro conjI)
  show "processFunctionCalls H Deg (ascii ''asin(1)'') = Inr (ascii ''Math.asin(1)'')"
    by (simp add: rewrite_defs char_class_defs)
  show "processFunctionCalls H Rad (ascii ''asin(1)'') = Inr (ascii ''Math.asin(1)'')"
    by (simp add: rewrite_defs char_class_defs)
  show "processFunctionCalls H Deg (ascii ''acos(1)'') = Inr (ascii ''Math.acos(1)'')"
    by (simp add: rewrite_defs char_class_defs)
  show "processFunctionCalls H Deg (ascii ''atan(1)'') = Inr (ascii ''Math.atan(1)'')"
    by (simp add: rewrite_defs char_class_defs)
  show "evaluate H (this\<lparr>angleMode := Deg\<rparr>) (ascii ''asin(1)'')
      = evaluate H (this\<lparr>angleMode := Rad\<rparr>) (ascii ''asin(1)'')"
    by (simp add: evaluate_def evaluate_body_def rewrite_defs char_class_defs)
  show "processFunctionCalls H Deg (ascii ''sin(90)'') = Inr (ascii ''Math.sin((90) * Math.PI / 180)'')"
    by (simp add: rewrite_defs char_class_defs)
  show "processFunctionCalls H Rad (ascii ''sin(90)'') = Inr (ascii ''Math.sin(90)'')"
    by (simp add: rewrite_defs char_class_defs)
qed

section \<open>The state machine of the expression buffer\<close>

text \<open>
  The spec calls the object \<^emph>\<open>Fresh\<close> when \<open>isNewExpression\<close> is true and \<^emph>\<open>Editing\<close>
  when it is false.
\<close>



text \<open>
  Claim C7, as the code has it. \<open>backspace\<close> removes the last code unit of the buffer
  whenever the buffer is not empty, in Fresh mode as well as in Editing mode, and leaves
  the mode, the last result and the memory alone; on an empty buffer it changes nothing.
\<close>

theorem backspace_removes_last:
  "expression (backspace this) = butlast (expression this)
   \<and> isNewExpression (backspace this) = isNewExpression this
   \<and> lastResult (backspace this) = lastResult this
   \<and> memory (backspace this) = memory this
   \<and> (expression this = [] \<longrightarrow> backspace this = this)"
  by (simp add: backspace_def updateDisplay_def)

theorem backspace_removes_last_witness:
  "expression (backspace (new_calculator\<lparr>expression := ascii ''12''\<rparr>)) = ascii ''1''
   \<and> expression new_calculator = []
   \<and> backspace new_calculator = new_calculator"
  using backspace_removes_last [of "new_calculator\<lparr>expression := ascii ''12''\<rparr>"]
    backspace_removes_last [of new_calculator]
  by (simp add: new_calculator_def ascii_def)

text \<open>
  Claim C7 as stated, that \<open>backspace\<close> does nothing while Fresh, fails: after equals on
  \<open>2+3\<close> with the result 5 the object is Fresh with the buffer still \<open>2+3\<close> (this is
  the state below), and \<open>backspace\<close> shortens the buffer to \<open>2+\<close>.
\<close>

theorem backspace_fresh_counterexample:
  "isNewExpression \<lparr>expression = ascii ''2+3'', result = ascii ''5'', lastResult = JNumber (Fin 5),
       memory = Fin 0, isNewExpression = True, angleMode = Rad\<rparr>
   \<and> expression (backspace \<lparr>expression = ascii ''2+3'', result = ascii ''5'',
       lastResult = JNumber (Fin 5), memory = Fin 0, isNewExpression = True, angleMode = Rad\<rparr>)
     = ascii ''2+''"
  by (simp add: backspace_def updateDisplay_def falsy_def ascii_def)

text \<open>
  Claim C8, as the code has it. On a non-empty buffer \<open>negate\<close> puts an ASCII minus sign
  in front, or removes the one that is there. Applying it twice gives back the object
  unchanged for every non-empty buffer other than \<open>-\<close> itself and the buffers that start
  with \<open>--\<close>; every buffer that does not start with a minus sign (\<open>5\<close> for one) is among
  them. On an empty buffer with a last result (a value other than \<open>null\<close>) the buffer
  becomes \<open>-(lastResult)\<close>, with the last result converted to a string, and the mode
  Editing.
\<close>

theorem negate_toggles_sign:
  "(expression this \<noteq> [] \<and> expression this \<noteq> ascii ''-'' \<and> take 2 (expression this) \<noteq> ascii ''--''
      \<longrightarrow> negate H (negate H this) = this)
   \<and> (expression this \<noteq> [] \<and> take 1 (expression this) \<noteq> ascii ''-''
      \<longrightarrow> expression (negate H this) = ascii ''-'' @ expression this)
   \<and> (take 1 (expression this) = ascii ''-''
      \<longrightarrow> expression (negate H this) = drop 1 (expression this))
   \<and> (expression this = [] \<and> lastResult this = JNumber v
      \<longrightarrow> expression (negate H this) = ascii ''-('' @ num_to_string H v @ ascii '')''
          \<and> \<not> isNewExpression (negate H this))
   \<and> (expression this = [] \<and> lastResult this \<noteq> JNull
      \<longrightarrow> expression (negate H this) = ascii ''-('' @ ToString H (lastResult this) @ ascii '')''
          \<and> \<not> isNewExpression (negate H this))"
proof -
  have twice: "negate H (negate H this) = this"
    if "expression this \<noteq> []" "expression this \<noteq> ascii ''-''"
      "take 2 (expression this) \<noteq> ascii ''--''"
  proof (cases "expression this")
    case Nil
    with that show ?thesis by simp
  next
    case (Cons c cs)
    show ?thesis
    proof (cases "c = of_char CHR ''-''")
      case False
      with Cons show ?thesis by (simp add: negate_def ascii_def)
    next
      case True
      with Cons that obtain d ds where cs: "cs = d # ds" "d \<noteq> of_char CHR ''-''"
        by (cases cs) (auto simp: ascii_def)
      with Cons True show ?thesis by (simp add: negate_def ascii_def)
    qed
  qed
  show ?thesis
    using twice by (auto simp: negate_def ascii_def)
qed

theorem negate_toggles_sign_witness:
  "negate sample_host (negate sample_host (new_calculator\<lparr>expression := ascii ''5''\<rparr>))
     = new_calculator\<lparr>expression := ascii ''5''\<rparr>
   \<and> expression (negate sample_host (new_calculator\<lparr>expression := ascii ''5''\<rparr>)) = ascii ''-5''
   \<and> expression (negate sample_host (new_calculator\<lparr>expression := ascii ''-5''\<rparr>)) = ascii ''5''
   \<and> expression (negate sample_host (new_calculator\<lparr>lastResult := JNumber (Fin 5)\<rparr>)) = ascii ''-(5)''
   \<and> \<not> isNewExpression (negate sample_host (new_calculator\<lparr>lastResult := JNumber (Fin 5)\<rparr>))"
  using negate_toggles_sign [of "new_calculator\<lparr>expression := ascii ''5''\<rparr>" sample_host]
    negate_toggles_sign [of "new_calculator\<lparr>expression := ascii ''-5''\<rparr>" sample_host]
    negate_toggles_sign [of "new_calculator\<lparr>lastResult := JNumber (Fin 5)\<rparr>" sample_host "Fin 5"]
  by (simp add: new_calculator_def ascii_def sample_host_def decimal.simps)

text \<open>
  Claim C8 as stated, that \<open>negate\<close> twice restores any non-empty buffer, fails on the
  buffer \<open>-\<close> (what is left of \<open>-5\<close> after one backspace): the first \<open>negate\<close> empties
  the buffer, and the second, with no last result, leaves it empty.
\<close>

theorem negate_twice_counterexample:
  "expression (new_calculator\<lparr>expression := ascii ''-''\<rparr>) \<noteq> []
   \<and> expression (negate sample_host (negate sample_host (new_calculator\<lparr>expression := ascii ''-''\<rparr>)))
      \<noteq> expression (new_calculator\<lparr>expression := ascii ''-''\<rparr>)"
  by (simp add: negate_def new_calculator_def ascii_def)

text \<open>
  Claim C9. After a successful equals action the object is Fresh, and appending a digit
  or a decimal point then replaces the whole buffer by that one character and enters
  Editing mode: the old buffer is not appended to.
\<close>

theorem fresh_after_equals:
  assumes "calculate H this = (this', Inr (Some r))"
    and "is_digit c \<or> c = of_char CHR ''.''"
  shows "isNewExpression this'
    \<and> appendNumber [c] this' = this'\<lparr>expression := [c], result := [], isNewExpression := False\<rparr>
    \<and> expression (appendNumber [c] this') = [c]
    \<and> \<not> isNewExpression (appendNumber [c] this')"
  using assms
  by (auto simp: calculate_def appendNumber_def split: sum.splits option.splits if_splits)

theorem fresh_after_equals_witness:
  "calculate sample_host (new_calculator\<lparr>expression := ascii ''2+3''\<rparr>)
     = (\<lparr>expression = ascii ''2+3'', result = ascii ''5'', lastResult = JNumber (Fin 5),
         memory = Fin 0, isNewExpression = True, angleMode = Rad\<rparr>,
        Inr (Some (ascii ''2+3'', JNumber (Fin 5))))
   \<and> is_digit (of_char CHR ''7'')
   \<and> expression (appendNumber (ascii ''7'')
        \<lparr>expression = ascii ''2+3'', result = ascii ''5'', lastResult = JNumber (Fin 5),
         memory = Fin 0, isNewExpression = True, angleMode = Rad\<rparr>) = ascii ''7''
   \<and> \<not> isNewExpression (appendNumber (ascii ''7'')
        \<lparr>expression = ascii ''2+3'', result = ascii ''5'', lastResult = JNumber (Fin 5),
         memory = Fin 0, isNewExpression = True, angleMode = Rad\<rparr>)"
proof -
  let ?s = "new_calculator\<lparr>expression := ascii ''2+3''\<rparr>"
  let ?s' = "\<lparr>expression = ascii ''2+3'', result = ascii ''5'', lastResult = JNumber (Fin 5),
         memory = Fin 0, isNewExpression = True, angleMode = Rad\<rparr>"
  have e: "expression ?s = ascii ''2+3''" by simp
  have 1: "calculate sample_host ?s = (?s', Inr (Some (ascii ''2+3'', JNumber (Fin 5))))"
    unfolding calculate_def e evaluate_sum_sample
    by (simp add: ascii_def sample_host_def decimal.simps new_calculator_def)
  have 2: "is_digit (of_char CHR ''7'')" by (simp add: is_digit_def)
  from fresh_after_equals [OF 1, of "of_char CHR ''7''"] 2
  have "expression (appendNumber [of_char CHR ''7''] ?s') = [of_char CHR ''7'']
      \<and> \<not> isNewExpression (appendNumber [of_char CHR ''7''] ?s')" by blast
  with 1 2 show ?thesis by (simp add: ascii_def)
qed

text \<open>
  Claim C10. With an empty buffer \<open>calculate\<close> returns \<open>null\<close> and the object is unchanged
  (last result, buffer and mode included). The outcome is the same for every host, so
  neither the evaluator nor the engine behind it has a say in it, and no error is raised.
\<close>

theorem calculate_empty_buffer:
  "expression this = [] \<Longrightarrow> calculate H this = (this, Inr None)"
  by (simp add: calculate_def)

theorem calculate_empty_buffer_witness:
  "expression new_calculator = []
   \<and> calculate sample_host new_calculator = (new_calculator, Inr None)"
  using calculate_empty_buffer [of new_calculator sample_host]
  by (simp add: new_calculator_def)

end
